theory Spec2Isabelle
  imports Complex_Main "HOL-Library.Char_ord" "HOL-Library.List_Lexorder" "HOL-Library.Log_Nat"
begin

section \<open>The synchronous inference service: data model\<close>

text \<open>
  The development embeds two source files of the inference container:
  \<^verbatim>\<open>inference_container/inferencer.py\<close> (class \<^verbatim>\<open>Inferencer\<close>) and
  \<^verbatim>\<open>inference_container/api_server.py\<close> (\<^verbatim>\<open>_prepare_dataframe_for_inference\<close> and the
  \<^verbatim>\<open>/predict\<close> handler). Python exceptions are values of type \<open>exn\<close>; a function that may
  raise returns \<open>exn + 'a\<close> with \<open>Inl\<close> for the raised exception. Mutable objects are records that
  are passed in and returned updated.
\<close>

subsection \<open>Exceptions\<close>

text \<open>
  The exception classes the two files distinguish. \<open>OtherError n\<close> stands for any further
  subclass of \<^verbatim>\<open>Exception\<close> (the number tells two of them apart). \<open>CancelledError\<close> is
  \<^verbatim>\<open>asyncio.CancelledError\<close>, which derives from \<^verbatim>\<open>BaseException\<close> and not from
  \<^verbatim>\<open>Exception\<close>, so an \<^verbatim>\<open>except Exception\<close> clause does not catch it.
\<close>

datatype exn =
    KeyError string
  | ValueError
  | IndexError
  | TypeError
  | AttributeError
  | RuntimeError
  | ZeroDivisionError
  | OverflowError
  | OtherError nat
  | CancelledError

fun is_Exception :: "exn \<Rightarrow> bool" where
  "is_Exception CancelledError = False"
| "is_Exception _ = True"

subsection \<open>Tables\<close>

text \<open>
  A pandas DataFrame with a datetime index: the column names in order and the rows, each a
  timestamp (nanoseconds since the epoch, as pandas stores it) with one cell per column. A
  cell is a float; \<open>None\<close> is NaN.
\<close>

type_synonym timestamp = int
type_synonym timedelta = int
type_synonym cell = "real option"

record frame =
  f_columns :: "string list"
  f_rows :: "(timestamp \<times> cell list) list"

definition n_rows :: "frame \<Rightarrow> nat" where
  "n_rows d = length (f_rows d)"

definition f_index :: "frame \<Rightarrow> timestamp list" where
  "f_index d = map fst (f_rows d)"

text \<open>Python indexing \<^verbatim>\<open>xs[i]\<close>: a negative index counts from the end, out of range raises.\<close>

definition py_get :: "'a list \<Rightarrow> int \<Rightarrow> exn + 'a" where
  "py_get xs i =
     (if 0 \<le> i \<and> i < int (length xs) then Inr (xs ! nat i)
      else if i < 0 \<and> - int (length xs) \<le> i then Inr (xs ! nat (int (length xs) + i))
      else Inl IndexError)"

fun col_pos :: "string list \<Rightarrow> string \<Rightarrow> nat option" where
  "col_pos [] c = None"
| "col_pos (x # xs) c = (if x = c then Some 0 else map_option Suc (col_pos xs c))"

text \<open>\<^verbatim>\<open>df[c] = values\<close>: overwrite the column when it exists, append it otherwise.\<close>

definition set_column :: "frame \<Rightarrow> string \<Rightarrow> (timestamp \<Rightarrow> cell) \<Rightarrow> frame" where
  "set_column d c g =
     (case col_pos (f_columns d) c of
        Some j \<Rightarrow> d\<lparr>f_rows := map (\<lambda>(t, r). (t, r[j := g t])) (f_rows d)\<rparr>
      | None \<Rightarrow> d\<lparr>f_columns := f_columns d @ [c],
                 f_rows := map (\<lambda>(t, r). (t, r @ [g t])) (f_rows d)\<rparr>)"

text \<open>\<^verbatim>\<open>df.loc[df.index[k], c] = v\<close> for a column that exists (a missing one is left alone
  here; the callers below only write columns the table has).\<close>

definition set_cell :: "nat \<Rightarrow> string \<Rightarrow> cell \<Rightarrow> frame \<Rightarrow> frame" where
  "set_cell k c v d =
     (case col_pos (f_columns d) c of
        Some j \<Rightarrow> d\<lparr>f_rows := (f_rows d)[k := (fst (f_rows d ! k), (snd (f_rows d ! k))[j := v])]\<rparr>
      | None \<Rightarrow> d)"

fun set_cells :: "nat \<Rightarrow> (string \<times> cell) list \<Rightarrow> frame \<Rightarrow> frame" where
  "set_cells k [] d = d"
| "set_cells k ((c, v) # cvs) d = set_cells k cvs (set_cell k c v d)"

text \<open>\<^verbatim>\<open>df.drop(columns=cs)\<close>: raises KeyError when a name is not a column.\<close>

definition drop_columns :: "string list \<Rightarrow> frame \<Rightarrow> exn + frame" where
  "drop_columns cs d =
     (case filter (\<lambda>c. c \<notin> set (f_columns d)) cs of
        m # _ \<Rightarrow> Inl (KeyError m)
      | [] \<Rightarrow>
          (let keep = filter (\<lambda>j. f_columns d ! j \<notin> set cs) [0 ..< length (f_columns d)]
           in Inr \<lparr>f_columns = map (\<lambda>j. f_columns d ! j) keep,
                   f_rows = map (\<lambda>(t, r). (t, map (\<lambda>j. r ! j) keep)) (f_rows d)\<rparr>))"

text \<open>\<^verbatim>\<open>df[cs]\<close>: the named columns, KeyError when one is missing.\<close>

definition select_columns :: "string list \<Rightarrow> frame \<Rightarrow> exn + frame" where
  "select_columns cs d =
     (case filter (\<lambda>c. c \<notin> set (f_columns d)) cs of
        m # _ \<Rightarrow> Inl (KeyError m)
      | [] \<Rightarrow>
          Inr \<lparr>f_columns = cs,
               f_rows = map (\<lambda>(t, r). (t, map (\<lambda>c. r ! the (col_pos (f_columns d) c)) cs))
                          (f_rows d)\<rparr>)"

text \<open>\<^verbatim>\<open>pd.date_range(start, periods, freq)\<close>: raises for a negative number of periods and
  for a zero step.\<close>

definition date_range :: "timestamp \<Rightarrow> int \<Rightarrow> timedelta \<Rightarrow> exn + timestamp list" where
  "date_range start periods freq =
     (if periods < 0 \<or> freq = 0 then Inl ValueError
      else Inr (map (\<lambda>k. start + int k * freq) [0 ..< nat periods]))"

text \<open>\<^verbatim>\<open>pd.DataFrame(index=idx, columns=cols)\<close>: every cell NaN.\<close>

definition empty_frame :: "timestamp list \<Rightarrow> string list \<Rightarrow> frame" where
  "empty_frame idx cols =
     \<lparr>f_columns = cols, f_rows = map (\<lambda>t. (t, replicate (length cols) None)) idx\<rparr>"

text \<open>\<^verbatim>\<open>pd.DataFrame(values, index=idx, columns=cols)\<close>: raises ValueError when the shape of
  the values is not (rows of the index, number of columns).\<close>

definition frame_of_values :: "cell list list \<Rightarrow> timestamp list \<Rightarrow> string list \<Rightarrow> exn + frame" where
  "frame_of_values vs idx cols =
     (if length vs = length idx \<and> list_all (\<lambda>r. length r = length cols) vs
      then Inr \<lparr>f_columns = cols, f_rows = zip idx vs\<rparr>
      else Inl ValueError)"

subsection \<open>Time features\<close>

definition TIME_FEATURES :: "string list" where
  "TIME_FEATURES =
     [''min_of_day_sin'', ''day_of_week_sin'', ''day_of_year_sin'',
      ''min_of_day_cos'', ''day_of_week_cos'', ''day_of_year_cos'']"

text \<open>
  Modelled from the spec: \<^verbatim>\<open>time_to_feature\<close> of \<^verbatim>\<open>data_utils\<close>, a module that is not among
  the source files. The spec (4.2, step 8): "derive cyclical time-features (sin/cos
  encodings of minute-of-day, day-of-week, day-of-year) and append them". The encoding of a
  timestamp is the parameter \<open>enc\<close> (one value per name of \<open>TIME_FEATURES\<close>); a column that
  exists already is overwritten.
\<close>

fun set_feature_columns :: "(timestamp \<Rightarrow> real list) \<Rightarrow> nat \<Rightarrow> string list \<Rightarrow> frame \<Rightarrow> frame" where
  "set_feature_columns enc k [] d = d"
| "set_feature_columns enc k (c # cs) d =
     set_feature_columns enc (Suc k) cs
       (set_column d c (\<lambda>t. if k < length (enc t) then Some (enc t ! k) else None))"

definition time_to_feature :: "(timestamp \<Rightarrow> real list) \<Rightarrow> frame \<Rightarrow> frame" where
  "time_to_feature enc d = set_feature_columns enc 0 TIME_FEATURES d"

section \<open>The executor: class Inferencer\<close>

subsection \<open>The loaded predictor and scaler\<close>

text \<open>
  \<^verbatim>\<open>current_model.predict(payload)\<close> is duck-typed: the sequence branch passes a numpy array,
  the seasonal branch a DataFrame, the multi-horizon-stats branch a dict with the keys
  \<^verbatim>\<open>h\<close>, \<^verbatim>\<open>X\<close> and \<^verbatim>\<open>level\<close> (always None). A numpy array is given with its number of
  dimensions: \<open>Arr3\<close> holds shape (batch, rows, features), \<open>Arr2\<close> shape (rows, features).
\<close>

datatype ndarray = Arr3 "real list list list" | Arr2 "real list list"

record stats_input =
  si_h :: int
  si_X :: frame

datatype payload = PArray ndarray | PFrame frame | PDict stats_input

text \<open>What a predictor returns: None, a 3-dimensional array (batch, steps, features), a
  DataFrame, or any other Python value.\<close>

datatype pyvalue = VNone | VArray3 "real list list list" | VFrame frame | VOther

text \<open>
  The predictor is an opaque stateful object. Its answer to a call may depend on the
  calls it has received before, so it is a function of that history and of the payload;
  the record \<open>inferencer\<close> below keeps the history.
\<close>

type_synonym predictor = "payload list \<Rightarrow> payload \<Rightarrow> exn + pyvalue"

text \<open>A fitted scaler: the attributes \<^verbatim>\<open>feature_names_in_\<close> and \<^verbatim>\<open>feature_names\<close> (empty
  when absent) and \<^verbatim>\<open>inverse_transform\<close>, which returns a 2-dimensional array or raises.\<close>

record scaler =
  feature_names_in :: "string list"
  feature_names :: "string list"
  inverse_transform :: "frame \<Rightarrow> exn + cell list list"

subsection \<open>Configuration and collaborators that are not in the source files\<close>

text \<open>
  The module constants read from the environment (\<^verbatim>\<open>SAMPLE_IDX\<close>, \<^verbatim>\<open>INFERENCE_LENGTH\<close>,
  \<^verbatim>\<open>INFERENCE_DISABLE_LOG_UPLOAD\<close>, \<^verbatim>\<open>USE_KAFKA\<close>), and the helpers of \<^verbatim>\<open>data_utils\<close> and
  of pandas and hashlib that the executor calls, taken as parameters:
  \<^verbatim>\<open>check_uniform\<close>, \<^verbatim>\<open>window_data\<close> (the windows with their feature dimension
  \<^verbatim>\<open>X_eval.shape[-1]\<close>), \<^verbatim>\<open>subset_scaler\<close>, \<^verbatim>\<open>pd.Timedelta(str)\<close>, the sin/cos encoding used by
  \<^verbatim>\<open>time_to_feature\<close>, and the 16 hex digits of the SHA-256 of the first three rows
  (\<open>None\<close> when computing it raises).
\<close>

record windows =
  w_feature_dim :: nat
  w_data :: "real list list list"

record env =
  SAMPLE_IDX :: int
  INFERENCE_LENGTH :: int
  disable_log_upload :: bool
  USE_KAFKA :: bool
  check_uniform :: "frame \<Rightarrow> exn + timedelta"
  window_data :: "frame \<Rightarrow> string list \<Rightarrow> int \<Rightarrow> int \<Rightarrow> exn + windows"
  subset_scaler :: "scaler \<Rightarrow> string list \<Rightarrow> string list \<Rightarrow> exn + scaler"
  parse_timedelta :: "string \<Rightarrow> exn + timedelta"
  time_encoding :: "timestamp \<Rightarrow> real list"
  sha16 :: "frame \<Rightarrow> string option"

subsection \<open>The log sink and the printed events\<close>

text \<open>
  The JSON line appended to \<^verbatim>\<open>{identifier}/{date}/results.jsonl\<close>: the fields the code
  computes from the prediction (the error metrics and samples are derived values that
  decide nothing and are left out).
\<close>

record log_record =
  lr_run_id :: string
  lr_prediction_hash :: string
  lr_rows_predicted :: nat

text \<open>
  The object store behind \<^verbatim>\<open>get_file\<close> and \<^verbatim>\<open>post_file\<close> of \<^verbatim>\<open>client_utils\<close> (not among the
  source files): the lines of the log object, and for each of the two calls the outcomes of
  its next invocations (\<open>True\<close>: the call raises; once the list is used up the calls
  succeed).
\<close>

record sink =
  sk_lines :: "log_record list"
  sk_get_fails :: "bool list"
  sk_post_fails :: "bool list"

text \<open>The structured events the code prints that the properties below refer to.\<close>

datatype event =
    EvNoData
  | EvNoModelLoaded
  | EvInsufficientRows int int int int
  | EvEmptyDataframe
  | EvAdjustStartIndex int int
  | EvPredictError exn
  | EvFallbackSqueeze
  | EvFallbackSqueezeFail exn
  | EvFallbackFlatten
  | EvFallbackFlattenFail exn
  | EvUnexpectedPredDim nat nat
  | EvRecursiveExtensionPad nat nat
  | EvExtensionExhausted int
  | EvInverseScalingFailed exn
  | EvScalerNone
  | EvDuplicatePredictionSkip string string
  | EvInferenceLogWrite
  | EvLogWriteAttemptFailed nat
  | EvPredictInferenceEnd nat

subsection \<open>The Inferencer object\<close>

datatype last_prediction = LastRecord log_record | LastResponse "(timestamp \<times> (string \<times> cell) list) list"

record inferencer =
  df :: "frame option"
  input_seq_len :: int
  output_seq_len :: int
  current_model :: "predictor option"
  current_scaler :: "scaler option"
  model_class :: string
  params :: "string \<rightharpoonup> string"
  current_run_id :: string
  expected_feature_columns :: "string list"
  emitted_prediction_keys :: "(string \<times> string) set"
  last_prediction_response :: "last_prediction option"
  active_jobs :: int
  predict_history :: "payload list"
  log_sink :: sink
  printed :: "event list"

definition emit :: "event \<Rightarrow> inferencer \<Rightarrow> inferencer" where
  "emit e s = s\<lparr>printed := printed s @ [e]\<rparr>"

text \<open>\<^verbatim>\<open>_mark_job_started\<close> and \<^verbatim>\<open>_mark_job_finished\<close> (inferencer.py 343-349).\<close>

definition mark_job_started :: "inferencer \<Rightarrow> inferencer" where
  "mark_job_started s = s\<lparr>active_jobs := active_jobs s + 1\<rparr>"

definition mark_job_finished :: "inferencer \<Rightarrow> inferencer" where
  "mark_job_finished s = s\<lparr>active_jobs := max 0 (active_jobs s - 1)\<rparr>"

subsection \<open>Calling the predictor\<close>

text \<open>\<^verbatim>\<open>self.current_model.predict(payload)\<close>: the call is recorded in the history whether it
  returns or raises. (A call with no model loaded raises AttributeError on None.)\<close>

definition call_predict :: "payload \<Rightarrow> inferencer \<Rightarrow> (exn + pyvalue) \<times> inferencer" where
  "call_predict p s =
     (case current_model s of
        None \<Rightarrow> (Inl AttributeError, s)
      | Some m \<Rightarrow> (m (predict_history s) p, s\<lparr>predict_history := predict_history s @ [p]\<rparr>))"

text \<open>\<^verbatim>\<open>data_np.squeeze(0)\<close> under the guard \<^verbatim>\<open>data_np.ndim == 3 and data_np.shape[0] == 1\<close>
  (\<open>None\<close> when the guard fails), and \<^verbatim>\<open>data_np.reshape(1, -1)\<close>.\<close>

fun squeeze0 :: "ndarray \<Rightarrow> ndarray option" where
  "squeeze0 (Arr3 [w]) = Some (Arr2 w)"
| "squeeze0 _ = None"

fun reshape_1_m1 :: "ndarray \<Rightarrow> ndarray" where
  "reshape_1_m1 (Arr3 ws) = Arr2 [concat (concat ws)]"
| "reshape_1_m1 (Arr2 rs) = Arr2 [concat rs]"

text \<open>
  The tolerant predictor call of the sequence branch (inferencer.py 546-576). The first
  call is made with the array as given. When it raises \<open>e_pred\<close>, the squeezed array is
  tried (when the guard holds), then, while \<^verbatim>\<open>multi_step_pred\<close> is still None, the flattened
  one; when it is None after that, the bare \<^verbatim>\<open>raise\<close> re-raises \<open>e_pred\<close>. An exception that
  is not an \<^verbatim>\<open>Exception\<close> passes through every \<^verbatim>\<open>except Exception\<close> clause.
\<close>

definition fallback_flatten ::
  "exn \<Rightarrow> ndarray \<Rightarrow> inferencer \<Rightarrow> (exn + pyvalue) \<times> inferencer" where
  "fallback_flatten e_pred data_np s =
     (case call_predict (PArray (reshape_1_m1 data_np)) s of
        (Inr v, s1) \<Rightarrow>
          (if v = VNone then (Inl e_pred, emit EvFallbackFlatten s1)
           else (Inr v, emit EvFallbackFlatten s1))
      | (Inl e3, s1) \<Rightarrow>
          (if is_Exception e3 then (Inl e_pred, emit (EvFallbackFlattenFail e3) s1)
           else (Inl e3, s1)))"

definition fallback_squeeze ::
  "exn \<Rightarrow> ndarray \<Rightarrow> inferencer \<Rightarrow> (exn + pyvalue) \<times> inferencer" where
  "fallback_squeeze e_pred data_np s =
     (case squeeze0 data_np of
        None \<Rightarrow> fallback_flatten e_pred data_np s
      | Some alt \<Rightarrow>
          (case call_predict (PArray alt) s of
             (Inr v, s1) \<Rightarrow>
               (if v = VNone then fallback_flatten e_pred data_np (emit EvFallbackSqueeze s1)
                else (Inr v, emit EvFallbackSqueeze s1))
           | (Inl e2, s1) \<Rightarrow>
               (if is_Exception e2
                then fallback_flatten e_pred data_np (emit (EvFallbackSqueezeFail e2) s1)
                else (Inl e2, s1))))"

definition predict_with_fallback ::
  "ndarray \<Rightarrow> inferencer \<Rightarrow> (exn + pyvalue) \<times> inferencer" where
  "predict_with_fallback data_np s =
     (case call_predict (PArray data_np) s of
        (Inr v, s1) \<Rightarrow> (Inr v, s1)
      | (Inl e_pred, s1) \<Rightarrow>
          (if is_Exception e_pred
           then fallback_squeeze e_pred data_np (emit (EvPredictError e_pred) s1)
           else (Inl e_pred, s1)))"

subsection \<open>The sequence branch: \<^verbatim>\<open>_perform_pytorch_inference\<close>\<close>

text \<open>\<^verbatim>\<open>multi_step_pred[:, i, :].flatten()\<close>: step \<open>i\<close> of every batch entry. Indexing None, a
  DataFrame or another value this way raises.\<close>

definition pred_step :: "pyvalue \<Rightarrow> nat \<Rightarrow> exn + real list" where
  "pred_step v i =
     (case v of
        VArray3 a \<Rightarrow>
          (if list_all (\<lambda>b. i < length b) a then Inr (concat (map (\<lambda>b. b ! i) a))
           else Inl IndexError)
      | VNone \<Rightarrow> Inl TypeError
      | VFrame d \<Rightarrow> Inl TypeError
      | VOther \<Rightarrow> Inl TypeError)"

text \<open>The values that stay fixed while the loop runs.\<close>

record loop_ctx =
  lc_H :: int
  lc_sample_idx :: int
  lc_X :: "real list list list"
  lc_feature_dim :: nat
  lc_FEATURES :: "string list"
  lc_target_col :: string
  lc_available :: int
  lc_out_len :: int

text \<open>Lines 584-596: a prediction as long as \<^verbatim>\<open>FEATURES\<close> fills all feature columns of the
  row, one of length 1 fills the target column, any other length is only reported.\<close>

definition write_row ::
  "loop_ctx \<Rightarrow> nat \<Rightarrow> real list \<Rightarrow> frame \<Rightarrow> inferencer \<Rightarrow> frame \<times> inferencer" where
  "write_row c k current_pred dfp s =
     (if length current_pred = length (lc_FEATURES c)
      then (set_cells k (zip (lc_FEATURES c) (map Some current_pred)) dfp, s)
      else if length current_pred = 1
      then (set_cell k (lc_target_col c) (Some (hd current_pred)) dfp, s)
      else (dfp, emit (EvUnexpectedPredDim (length current_pred) (length (lc_FEATURES c))) s))"

text \<open>
  Lines 606-624, recursive mode: the next window is the current one without its first row
  and with a new last row, the prediction followed by the last known values of the
  remaining feature slots. Writing a prediction longer than the feature dimension into
  the slice raises; reading the last row of an empty window raises. The flag tells whether
  the padding event is printed. (Windows are rectangular: every row has \<open>feature_dim\<close>
  entries.)
\<close>

definition extend_sequence ::
  "nat \<Rightarrow> real list \<Rightarrow> real list list \<Rightarrow> exn + (real list list \<times> bool)" where
  "extend_sequence feature_dim current_pred cur =
     (let pred_dim = length current_pred
      in if pred_dim > feature_dim then Inl RuntimeError
         else if pred_dim < feature_dim
         then (if cur = [] then Inl IndexError
               else Inr (tl cur @ [current_pred @ drop pred_dim (last cur)], True))
         else Inr (tl cur @ [current_pred], False))"

text \<open>The inner loop \<^verbatim>\<open>for i in range(steps_to_use)\<close> (lines 579-627); each \<^verbatim>\<open>break\<close> ends
  it with the state reached.\<close>

fun block_steps ::
  "loop_ctx \<Rightarrow> int \<Rightarrow> pyvalue \<Rightarrow> nat list \<Rightarrow> real list list \<Rightarrow> frame \<Rightarrow> inferencer
     \<Rightarrow> (exn + (real list list \<times> frame)) \<times> inferencer" where
  "block_steps c step mp [] cur dfp s = (Inr (cur, dfp), s)"
| "block_steps c step mp (i # rest) cur dfp s =
     (if step + int i \<ge> lc_H c then (Inr (cur, dfp), s)
      else
        (case pred_step mp i of
           Inl e \<Rightarrow> (Inl e, s)
         | Inr current_pred \<Rightarrow>
             (if lc_sample_idx c + (step + int i) + 1 < int (length (lc_X c))
              then
                (case py_get (lc_X c) (lc_sample_idx c + (step + int i) + 1) of
                   Inl e \<Rightarrow> (Inl e, snd (write_row c (nat (step + int i)) current_pred dfp s))
                 | Inr w \<Rightarrow>
                     block_steps c step mp rest w
                       (fst (write_row c (nat (step + int i)) current_pred dfp s))
                       (snd (write_row c (nat (step + int i)) current_pred dfp s)))
              else if (step + int i) + 1 - lc_available c
                        < int (n_rows (fst (write_row c (nat (step + int i)) current_pred dfp s)))
              then
                (case extend_sequence (lc_feature_dim c) current_pred cur of
                   Inl e \<Rightarrow> (Inl e, snd (write_row c (nat (step + int i)) current_pred dfp s))
                 | Inr (cur', pad) \<Rightarrow>
                     block_steps c step mp rest cur'
                       (fst (write_row c (nat (step + int i)) current_pred dfp s))
                       (if pad
                        then emit (EvRecursiveExtensionPad (length current_pred) (lc_feature_dim c))
                               (snd (write_row c (nat (step + int i)) current_pred dfp s))
                        else snd (write_row c (nat (step + int i)) current_pred dfp s)))
              else
                (Inr (cur, fst (write_row c (nat (step + int i)) current_pred dfp s)),
                 emit (EvExtensionExhausted ((step + int i) + 1 - lc_available c))
                   (snd (write_row c (nat (step + int i)) current_pred dfp s))))))"

text \<open>
  The outer loop \<^verbatim>\<open>for step in range(local_inference_length)\<close> (lines 541-655). The
  assignment \<^verbatim>\<open>step += steps_to_use - 1\<close> at the end of the body changes the loop variable
  only until \<^verbatim>\<open>range\<close> hands out the next value, so every step of the range is visited. The
  per-step error list and the progress line (lines 629-653) change neither the table nor
  the control flow (the former sits in \<^verbatim>\<open>try/except: pass\<close>) and are left out.
\<close>

fun forecast_loop ::
  "loop_ctx \<Rightarrow> nat list \<Rightarrow> real list list \<Rightarrow> frame \<Rightarrow> inferencer
     \<Rightarrow> (exn + (real list list \<times> frame)) \<times> inferencer" where
  "forecast_loop c [] cur dfp s = (Inr (cur, dfp), s)"
| "forecast_loop c (step # steps) cur dfp s =
     (case predict_with_fallback (Arr3 [cur]) s of
        (Inl e, s1) \<Rightarrow> (Inl e, s1)
      | (Inr mp, s1) \<Rightarrow>
          (case block_steps c (int step) mp
                  [0 ..< nat (min (lc_out_len c) (lc_H c - int step))] cur dfp s1 of
             (Inl e, s2) \<Rightarrow> (Inl e, s2)
           | (Inr (cur', dfp'), s2) \<Rightarrow> forecast_loop c steps cur' dfp' s2))"

text \<open>Lines 663-688: the inverse scaling of the sequence branch, inside
  \<^verbatim>\<open>try ... except Exception\<close>.\<close>

definition scaler_original_cols :: "scaler \<Rightarrow> string list" where
  "scaler_original_cols sc =
     (if feature_names_in sc \<noteq> [] then feature_names_in sc else feature_names sc)"

definition inverse_scale_guarded :: "env \<Rightarrow> frame \<Rightarrow> inferencer \<Rightarrow> (exn + frame) \<times> inferencer" where
  "inverse_scale_guarded ev dfp s =
     (case current_scaler s of
        None \<Rightarrow> (Inr dfp, emit EvScalerNone s)
      | Some sc \<Rightarrow>
          (case (case (if scaler_original_cols sc \<noteq> []
                       then subset_scaler ev sc (scaler_original_cols sc) (f_columns dfp)
                       else Inr sc) of
                   Inl e \<Rightarrow> Inl e
                 | Inr sub_scaler \<Rightarrow>
                     (case inverse_transform sub_scaler dfp of
                        Inl e \<Rightarrow> Inl e
                      | Inr vals \<Rightarrow> frame_of_values vals (f_index dfp) (f_columns dfp))) of
             Inr t \<Rightarrow> (Inr t, s)
           | Inl e \<Rightarrow>
               (if is_Exception e then (Inr dfp, emit (EvInverseScalingFailed e) s)
                else (Inl e, s))))"

definition perform_pytorch_inference ::
  "env \<Rightarrow> frame \<Rightarrow> frame \<Rightarrow> int \<Rightarrow> inferencer \<Rightarrow> (exn + frame) \<times> inferencer" where
  "perform_pytorch_inference ev df_eval df_predictions H s =
     (let FEATURES = filter (\<lambda>c. c \<notin> set TIME_FEATURES) (f_columns df_eval);
          target_col = (if ''value'' \<in> set (f_columns df_eval) then ''value'' else ''down'');
          dfp0 = (if target_col \<notin> set (f_columns df_predictions)
                  then set_column df_predictions target_col (\<lambda>t. None)
                  else df_predictions)
      in case window_data ev df_eval TIME_FEATURES (input_seq_len s) (output_seq_len s) of
           Inl e \<Rightarrow> (Inl e, s)
         | Inr X \<Rightarrow>
             (case py_get (w_data X) (SAMPLE_IDX ev) of
                Inl e \<Rightarrow> (Inl e, s)
              | Inr current_sequence \<Rightarrow>
                  (case forecast_loop
                          \<lparr>lc_H = H, lc_sample_idx = SAMPLE_IDX ev, lc_X = w_data X,
                           lc_feature_dim = w_feature_dim X, lc_FEATURES = FEATURES,
                           lc_target_col = target_col,
                           lc_available = min (int (length (w_data X)) - SAMPLE_IDX ev) H,
                           lc_out_len = output_seq_len s\<rparr>
                          [0 ..< nat H] current_sequence dfp0 s of
                     (Inl e, s1) \<Rightarrow> (Inl e, s1)
                   | (Inr (cur, dfp), s1) \<Rightarrow>
                       (case drop_columns TIME_FEATURES dfp of
                          Inl e \<Rightarrow> (Inl e, s1)
                        | Inr dfp' \<Rightarrow> inverse_scale_guarded ev dfp' s1))))"

subsection \<open>The seasonal and multi-horizon-stats branches\<close>

text \<open>Lines 728-743 and 795-810: the inverse scaling of both branches, with no \<^verbatim>\<open>try\<close>
  around it. A predictor result that is not a DataFrame has no \<^verbatim>\<open>index\<close> and no
  \<^verbatim>\<open>columns\<close>, so the branch raises on it.\<close>

definition inverse_scale_unguarded :: "pyvalue \<Rightarrow> inferencer \<Rightarrow> (exn + frame) \<times> inferencer" where
  "inverse_scale_unguarded v s =
     (case current_scaler s of
        Some sc \<Rightarrow>
          (case v of
             VFrame d \<Rightarrow>
               (case inverse_transform sc d of
                  Inl e \<Rightarrow> (Inl e, s)
                | Inr vals \<Rightarrow> (frame_of_values vals (f_index d) (f_columns d), s))
           | _ \<Rightarrow> (Inl AttributeError, s))
      | None \<Rightarrow>
          (case v of
             VFrame d \<Rightarrow> (Inr d, emit EvScalerNone s)
           | _ \<Rightarrow> (Inl AttributeError, emit EvScalerNone s)))"

definition perform_prophet_inference ::
  "env \<Rightarrow> frame \<Rightarrow> frame \<Rightarrow> int \<Rightarrow> inferencer \<Rightarrow> (exn + frame) \<times> inferencer" where
  "perform_prophet_inference ev df_eval df_predictions H s =
     (case call_predict (PFrame df_predictions) s of
        (Inl e, s1) \<Rightarrow> (Inl e, s1)
      | (Inr v, s1) \<Rightarrow> inverse_scale_unguarded v s1)"

text \<open>
  Lines 754-786: the dict handed to the predictor. Without resampling
  (\<^verbatim>\<open>params["downsampling"]\<close> is \<^verbatim>\<open>"0"\<close> or equals \<^verbatim>\<open>params["frequency"]\<close>) the horizon is
  the module constant \<^verbatim>\<open>INFERENCE_LENGTH\<close>; with resampling it is
  \<^verbatim>\<open>int(np.ceil(local_inference_length*frequency/downsampling))\<close> and the time-feature
  frame is rebuilt from \<^verbatim>\<open>df_eval.index[SAMPLE_IDX]\<close> with step \<^verbatim>\<open>frequency\<close>.
\<close>

text \<open>
  The arithmetic of line 765 is that of pandas on \<^verbatim>\<open>pd.Timedelta\<close> values, which are int64
  counts of nanoseconds. \<^verbatim>\<open>int * Timedelta\<close> is the Timedelta of the product and raises
  when the product is not a valid int64 count (the least int64 is the NaT sentinel).
  \<^verbatim>\<open>Timedelta / Timedelta\<close> is \<^verbatim>\<open>self._value / float(other._value)\<close>: both counts are converted
  to IEEE-754 binary64 and divided there, each step rounding to the nearest double, ties
  to the even mantissa; a zero divisor raises \<^verbatim>\<open>ZeroDivisionError\<close>. \<^verbatim>\<open>np.ceil\<close> and \<^verbatim>\<open>int\<close> are
  exact on the double that results.

  A double is represented by the rational number it denotes. \<open>round_ratio n d\<close> is the
  double nearest to \<open>n / d\<close> for \<open>d \<noteq> 0\<close>: with \<open>e\<close> the binary exponent of the quotient
  (\<open>2\<^sup>e \<le> |n / d| < 2\<^sup>e\<^sup>+\<^sup>1\<close>, found from the bit lengths), the quotient is rounded to a multiple
  of \<open>2\<^sup>e\<^sup>-\<^sup>5\<^sup>2\<close>. Counts of nanoseconds and their quotients lie between \<open>2\<^sup>-\<^sup>6\<^sup>3\<close> and \<open>2\<^sup>6\<^sup>3\<close> in
  absolute value, where every double is normal, so neither overflow nor subnormal numbers
  need a case. The double nearest to an integer is an integer.
\<close>

definition pow2 :: "int \<Rightarrow> rat" where
  "pow2 e = (if 0 \<le> e then 2 ^ nat e else 1 / 2 ^ nat (- e))"

definition binary_exponent :: "int \<Rightarrow> int \<Rightarrow> int" where
  "binary_exponent a b =
     (let e0 = bitlen a - bitlen b
      in if pow2 e0 * of_int b \<le> of_int a then e0 else e0 - 1)"

definition round_half_even :: "int \<Rightarrow> int \<Rightarrow> int" where
  "round_half_even num den =
     (let q = num div den; r = num mod den
      in if 2 * r < den then q
         else if den < 2 * r then q + 1
         else if even q then q else q + 1)"

definition round_ratio :: "int \<Rightarrow> int \<Rightarrow> rat" where
  "round_ratio n d =
     (if n = 0 then 0
      else
        (let a = \<bar>n\<bar>; b = \<bar>d\<bar>;
             e = binary_exponent a b;
             mantissa = (if 52 \<le> e then round_half_even a (b * 2 ^ nat (e - 52))
                         else round_half_even (a * 2 ^ nat (52 - e)) b)
         in of_int (sgn n * sgn d * mantissa) * pow2 (e - 52)))"

definition double_of_int :: "int \<Rightarrow> int" where
  "double_of_int n = \<lfloor>round_ratio n 1\<rfloor>"

definition double_div :: "int \<Rightarrow> int \<Rightarrow> rat" where
  "double_div x y = round_ratio x y"

definition resampled_length :: "int \<Rightarrow> timedelta \<Rightarrow> timedelta \<Rightarrow> exn + int" where
  "resampled_length local_inference_length frequency downsampling =
     (let scaled = local_inference_length * frequency
      in if scaled \<le> - (2 ^ 63) \<or> 2 ^ 63 \<le> scaled then Inl OverflowError
         else if downsampling = 0 then Inl ZeroDivisionError
         else Inr \<lceil>double_div (double_of_int scaled) (double_of_int downsampling)\<rceil>)"

definition stats_no_resample :: "env \<Rightarrow> frame \<Rightarrow> exn + stats_input" where
  "stats_no_resample ev df_predictions =
     (case select_columns TIME_FEATURES df_predictions of
        Inl e \<Rightarrow> Inl e
      | Inr exog_df \<Rightarrow> Inr \<lparr>si_h = INFERENCE_LENGTH ev, si_X = exog_df\<rparr>)"

definition stats_resample ::
  "env \<Rightarrow> string \<Rightarrow> string \<Rightarrow> frame \<Rightarrow> int \<Rightarrow> exn + stats_input" where
  "stats_resample ev ds fr df_eval H =
     (case parse_timedelta ev ds of
        Inl e \<Rightarrow> Inl e
      | Inr downsampling \<Rightarrow>
          (case parse_timedelta ev fr of
             Inl e \<Rightarrow> Inl e
           | Inr frequency \<Rightarrow>
               (case resampled_length H frequency downsampling of
                  Inl e \<Rightarrow> Inl e
                | Inr inf_len \<Rightarrow>
                    (case py_get (f_index df_eval) (SAMPLE_IDX ev) of
                       Inl e \<Rightarrow> Inl e
                     | Inr start \<Rightarrow>
                         (case date_range start inf_len frequency of
                            Inl e \<Rightarrow> Inl e
                          | Inr idx \<Rightarrow>
                              (case select_columns TIME_FEATURES
                                      (time_to_feature (time_encoding ev)
                                         (empty_frame idx (f_columns df_eval))) of
                                 Inl e \<Rightarrow> Inl e
                               | Inr exog_df \<Rightarrow> Inr \<lparr>si_h = inf_len, si_X = exog_df\<rparr>))))))"

definition stats_input_dict :: "env \<Rightarrow> frame \<Rightarrow> frame \<Rightarrow> int \<Rightarrow> inferencer \<Rightarrow> exn + stats_input" where
  "stats_input_dict ev df_eval df_predictions H s =
     (case params s ''downsampling'' of
        None \<Rightarrow> Inl (KeyError ''downsampling'')
      | Some ds \<Rightarrow>
          (if ds = ''0'' then stats_no_resample ev df_predictions
           else
             (case params s ''frequency'' of
                None \<Rightarrow> Inl (KeyError ''frequency'')
              | Some fr \<Rightarrow>
                  (if ds = fr then stats_no_resample ev df_predictions
                   else stats_resample ev ds fr df_eval H))))"

definition perform_statsforecast_inference ::
  "env \<Rightarrow> frame \<Rightarrow> frame \<Rightarrow> int \<Rightarrow> inferencer \<Rightarrow> (exn + frame) \<times> inferencer" where
  "perform_statsforecast_inference ev df_eval df_predictions H s =
     (case stats_input_dict ev df_eval df_predictions H s of
        Inl e \<Rightarrow> (Inl e, s)
      | Inr input_dict \<Rightarrow>
          (case call_predict (PDict input_dict) s of
             (Inl e, s1) \<Rightarrow> (Inl e, s1)
           | (Inr v, s1) \<Rightarrow> inverse_scale_unguarded v s1))"

subsection \<open>Saving the prediction: \<^verbatim>\<open>_save_and_publish_predictions\<close>\<close>

text \<open>\<^verbatim>\<open>get_file\<close> inside \<^verbatim>\<open>try/except\<close> (a failure reads as no existing object) and
  \<^verbatim>\<open>post_file\<close>, which replaces the object by the body it is given or raises.\<close>

definition get_file :: "sink \<Rightarrow> log_record list option \<times> sink" where
  "get_file k =
     (case sk_get_fails k of
        [] \<Rightarrow> (Some (sk_lines k), k)
      | fails # fs \<Rightarrow>
          (if fails then None else Some (sk_lines k), k\<lparr>sk_get_fails := fs\<rparr>))"

definition post_file :: "sink \<Rightarrow> log_record list \<Rightarrow> bool \<times> sink" where
  "post_file k body =
     (case sk_post_fails k of
        [] \<Rightarrow> (True, k\<lparr>sk_lines := body\<rparr>)
      | fails # fs \<Rightarrow>
          (if fails then (False, k\<lparr>sk_post_fails := fs\<rparr>)
           else (True, k\<lparr>sk_lines := body, sk_post_fails := fs\<rparr>)))"

text \<open>Lines 978-1032: \<^verbatim>\<open>for attempt in range(1, max_retries + 1)\<close>, leaving the loop at the
  first upload that succeeds. The warning is printed for a failed attempt that is not the
  last. (The Kafka notifications of the deprecated Kafka mode are not modelled.)\<close>

fun append_with_retries :: "nat list \<Rightarrow> log_record \<Rightarrow> inferencer \<Rightarrow> inferencer" where
  "append_with_retries [] line s = s"
| "append_with_retries (attempt # rest) line s =
     (let existing = fst (get_file (log_sink s));
          k1 = snd (get_file (log_sink s));
          existing_bytes = (case existing of None \<Rightarrow> [] | Some ls \<Rightarrow> ls);
          ok = fst (post_file k1 (existing_bytes @ [line]));
          k2 = snd (post_file k1 (existing_bytes @ [line]))
      in if ok then emit EvInferenceLogWrite (s\<lparr>log_sink := k2\<rparr>)
         else append_with_retries rest line
                (if rest = [] then s\<lparr>log_sink := k2\<rparr>
                 else emit (EvLogWriteAttemptFailed attempt) (s\<lparr>log_sink := k2\<rparr>)))"

definition head3 :: "frame \<Rightarrow> frame" where
  "head3 d = d\<lparr>f_rows := take 3 (f_rows d)\<rparr>"

text \<open>Lines 932-937: the prediction hash, the empty string when computing it raises.\<close>

definition prediction_hash :: "env \<Rightarrow> frame \<Rightarrow> string" where
  "prediction_hash ev d = (case sha16 ev (head3 d) of None \<Rightarrow> [] | Some h \<Rightarrow> h)"

text \<open>Lines 838-842 and 932-1062. \<^verbatim>\<open>getattr(self, "current_run_id", "")\<close>: an object that
  has no run id has the empty one.\<close>

definition save_and_publish_predictions :: "env \<Rightarrow> frame \<Rightarrow> inferencer \<Rightarrow> inferencer" where
  "save_and_publish_predictions ev d s =
     (if disable_log_upload ev then s
      else
        (let pred_hash = prediction_hash ev d;
             run_id = current_run_id s;
             pred_key = (run_id, pred_hash)
         in if run_id \<noteq> [] \<and> pred_hash \<noteq> [] \<and> pred_key \<in> emitted_prediction_keys s
            then emit (EvDuplicatePredictionSkip run_id pred_hash) s
            else
              (let s1 = (if run_id \<noteq> [] \<and> pred_hash \<noteq> []
                         then s\<lparr>emitted_prediction_keys :=
                                  insert pred_key (emitted_prediction_keys s)\<rparr>
                         else s);
                   line = \<lparr>lr_run_id = run_id, lr_prediction_hash = pred_hash,
                           lr_rows_predicted = n_rows d\<rparr>;
                   s2 = append_with_retries [1, 2, 3] line s1
               in if USE_KAFKA ev then s2
                  else s2\<lparr>last_prediction_response := Some (LastRecord line)\<rparr>)))"

text \<open>The number of appends to the log object so far: one \<^verbatim>\<open>inference_log_write\<close> event is
  printed after every \<^verbatim>\<open>post_file\<close> that returned.\<close>

definition log_writes :: "inferencer \<Rightarrow> nat" where
  "log_writes s = length (filter (\<lambda>e. e = EvInferenceLogWrite) (printed s))"

subsection \<open>\<^verbatim>\<open>perform_inference\<close>\<close>

definition run_model_branch ::
  "env \<Rightarrow> frame \<Rightarrow> frame \<Rightarrow> int \<Rightarrow> inferencer \<Rightarrow> (exn + frame) \<times> inferencer" where
  "run_model_branch ev df_eval df_predictions H s =
     (if model_class s = ''pytorch'' then perform_pytorch_inference ev df_eval df_predictions H s
      else if model_class s = ''prophet'' then perform_prophet_inference ev df_eval df_predictions H s
      else if model_class s = ''statsforecast''
      then perform_statsforecast_inference ev df_eval df_predictions H s
      else (Inl ValueError, s))"

text \<open>Lines 407-494, the body of the \<^verbatim>\<open>try\<close>: the result is None (no prediction), a table,
  or a raised exception.\<close>

definition perform_inference_body ::
  "env \<Rightarrow> frame \<Rightarrow> int \<Rightarrow> inferencer \<Rightarrow> (exn + frame option) \<times> inferencer" where
  "perform_inference_body ev df_eval H s =
     (let total_rows = int (n_rows df_eval);
          min_needed = input_seq_len s + output_seq_len s;
          required_index = SAMPLE_IDX ev + input_seq_len s
      in if input_seq_len s > 0 \<and> total_rows < min_needed
         then (Inr None,
               emit (EvInsufficientRows total_rows (input_seq_len s) (output_seq_len s) min_needed) s)
         else if total_rows = 0 then (Inr None, emit EvEmptyDataframe s)
         else
           (let adjusted_start_pos =
                  (if required_index \<ge> total_rows then total_rows - 1 else required_index);
                s1 = (if required_index \<ge> total_rows
                      then emit (EvAdjustStartIndex required_index adjusted_start_pos) s
                      else s)
            in case check_uniform ev df_eval of
                 Inl e \<Rightarrow> (Inl e, s1)
               | Inr delta \<Rightarrow>
                   (case py_get (f_index df_eval) adjusted_start_pos of
                      Inl e \<Rightarrow> (Inl e, s1)
                    | Inr start_timestamp \<Rightarrow>
                        (case date_range start_timestamp H delta of
                           Inl e \<Rightarrow> (Inl e, s1)
                         | Inr idx \<Rightarrow>
                             (case run_model_branch ev df_eval
                                     (time_to_feature (time_encoding ev)
                                        (empty_frame idx (f_columns df_eval))) H s1 of
                                (Inl e, s2) \<Rightarrow> (Inl e, s2)
                              | (Inr t, s2) \<Rightarrow>
                                  (Inr (Some t),
                                   emit (EvPredictInferenceEnd (n_rows t))
                                     (save_and_publish_predictions ev t s2)))))))"

text \<open>
  Lines 357-497. Without a table (no override and no service table) and without a loaded
  model the method returns None before the job counter is touched; otherwise the counter
  is raised, the body runs, and the \<^verbatim>\<open>finally\<close> clause lowers the counter on every way out.
\<close>

definition perform_inference ::
  "env \<Rightarrow> frame option \<Rightarrow> int option \<Rightarrow> inferencer \<Rightarrow> (exn + frame option) \<times> inferencer" where
  "perform_inference ev df_eval inference_length s =
     (case (case df_eval of None \<Rightarrow> df s | Some d \<Rightarrow> Some d) of
        None \<Rightarrow> (Inr None, emit EvNoData s)
      | Some d \<Rightarrow>
          (if current_model s = None then (Inr None, emit EvNoModelLoaded s)
           else
             (let local_inference_length =
                    (case inference_length of Some n \<Rightarrow> n | None \<Rightarrow> INFERENCE_LENGTH ev)
              in (fst (perform_inference_body ev d local_inference_length (mark_job_started s)),
                  mark_job_finished
                    (snd (perform_inference_body ev d local_inference_length
                            (mark_job_started s)))))))"

section \<open>The serving endpoint: api_server.py\<close>

subsection \<open>Requests, errors and responses\<close>

datatype json = JNum real | JStr string | JBool bool | JNull

text \<open>\<^verbatim>\<open>PredictRequest\<close>: the optional horizon, the optional mapping of column names to
  arrays (in the order of the JSON object) and the optional name of the index column.\<close>

record predict_request =
  pr_inference_length :: "int option"
  pr_data :: "(string \<times> json list) list option"
  pr_index_col :: "string option"

text \<open>The detail of an \<^verbatim>\<open>HTTPException\<close>, one constructor per message of the file, with the
  values the message is formatted from.\<close>

datatype detail =
    DDataRequired
  | DInterpretFailed
  | DNoRows
  | DNoTimestampColumn
  | DInvalidTimestamps string
  | DNoDatetimeIndex
  | DNoRowsAfterNormalization
  | DAllTimestampsIdentical nat timestamp
  | DNonNumericColumns "string list"
  | DMissingFeatureColumns "string list"
  | DParseFailed
  | DNoCachedDataframe
  | DServiceNotReady
  | DInferenceSkipped
  | DMissingColumnsForInference string
  | DExecutionFailed

text \<open>What leaves a function of the API by \<^verbatim>\<open>raise\<close>: an \<^verbatim>\<open>HTTPException\<close> with its status
  code, or another exception.\<close>

datatype failure = HTTPException nat detail | Raised exn

text \<open>A table whose index is set and whose cells are still the JSON values.\<close>

record raw_frame =
  rf_columns :: "string list"
  rf_rows :: "(timestamp \<times> json list) list"

text \<open>
  The configuration of the endpoint and the library calls it makes, as parameters:
  \<^verbatim>\<open>_cache_enabled()\<close>, \<^verbatim>\<open>PREDICT_FORCE_OK\<close>, \<^verbatim>\<open>pd.to_datetime(col, errors="coerce")\<close> (NaT is
  \<open>None\<close>), \<^verbatim>\<open>pd.to_numeric(col, errors="raise")\<close>, \<^verbatim>\<open>strip_timezones\<close> of \<^verbatim>\<open>data_utils\<close> (not
  among the source files), the value of \<^verbatim>\<open>SIMULATE_DELAY_SECS\<close>, what awaiting
  \<^verbatim>\<open>asyncio.sleep\<close> does to the request's task (\<open>None\<close>: it returns), and the environment of
  the executor.
\<close>

record api_env =
  cache_enabled :: bool
  force_ok :: bool
  to_datetime :: "json list \<Rightarrow> exn + timestamp option list"
  to_numeric :: "json list \<Rightarrow> exn + cell list"
  strip_timezones :: "raw_frame \<Rightarrow> exn + raw_frame"
  simulate_delay_secs :: real
  sleep_outcome :: "exn option"
  executor_env :: env

subsection \<open>\<^verbatim>\<open>_prepare_dataframe_for_inference\<close>\<close>

definition TIME_FEATURE_COLUMNS :: "string list" where
  "TIME_FEATURE_COLUMNS =
     [''min_of_day_sin'', ''min_of_day_cos'', ''day_of_week_sin'', ''day_of_week_cos'',
      ''day_of_year_sin'', ''day_of_year_cos'']"

text \<open>Lines 421-438: the required base columns, here as the sorted list of the set.\<close>

definition expected_feature_columns_of :: "inferencer option \<Rightarrow> string list" where
  "expected_feature_columns_of service =
     (case service of
        None \<Rightarrow> []
      | Some svc \<Rightarrow>
          sort (remdups (filter (\<lambda>c. c \<notin> set TIME_FEATURE_COLUMNS)
            ((case df svc of
                None \<Rightarrow> []
              | Some base_df \<Rightarrow>
                  (if f_rows base_df \<noteq> [] \<and> f_columns base_df \<noteq> [] then f_columns base_df
                   else []))
             @ expected_feature_columns svc))))"

text \<open>\<^verbatim>\<open>pd.DataFrame(data)\<close> (lines 476-484): the arrays must have one length; the rows of the
  table are read across the arrays.\<close>

definition rows_of_data :: "(string \<times> json list) list \<Rightarrow> exn + json list list" where
  "rows_of_data data =
     (case data of
        [] \<Rightarrow> Inr []
      | (c, vs) # rest \<Rightarrow>
          (if list_all (\<lambda>(c', vs'). length vs' = length vs) rest
           then Inr (map (\<lambda>k. map (\<lambda>(c', vs'). vs' ! k) data) [0 ..< length vs])
           else Inl ValueError))"

text \<open>Lines 486-491: the explicit index column first, then the names of the fixed list that
  are columns.\<close>

definition index_candidates :: "string option \<Rightarrow> string list \<Rightarrow> string list" where
  "index_candidates index_col cols =
     (let explicit = (case index_col of None \<Rightarrow> [] | Some c \<Rightarrow> (if c = [] then [] else [c]))
      in explicit
         @ filter (\<lambda>c. c \<in> set cols \<and> c \<notin> set explicit) [''ts'', ''timestamp'', ''time'', ''date''])"

text \<open>Lines 496-525: the first candidate that is a column and parses becomes the index and
  is dropped from the columns; NaT in it is a client error; a candidate whose parsing
  raises is skipped. \<open>Inr None\<close>: no index was assigned.\<close>

fun assign_index ::
  "api_env \<Rightarrow> string list \<Rightarrow> string list \<Rightarrow> json list list \<Rightarrow> failure + raw_frame option" where
  "assign_index av [] cols rows = Inr None"
| "assign_index av (candidate # rest) cols rows =
     (case col_pos cols candidate of
        None \<Rightarrow> assign_index av rest cols rows
      | Some j \<Rightarrow>
          (case to_datetime av (map (\<lambda>r. r ! j) rows) of
             Inl e \<Rightarrow> (if is_Exception e then assign_index av rest cols rows else Inl (Raised e))
           | Inr idx \<Rightarrow>
               (if list_ex (\<lambda>t. t = None) idx
                then Inl (HTTPException 400 (DInvalidTimestamps candidate))
                else Inr (Some \<lparr>rf_columns = take j cols @ drop (Suc j) cols,
                                 rf_rows = zip (map the idx)
                                             (map (\<lambda>r. take j r @ drop (Suc j) r) rows)\<rparr>))))"

text \<open>Lines 470-534: from the payload to the table with its index set, sorted by timestamp
  and with time zones stripped.\<close>

definition normalized_table :: "api_env \<Rightarrow> predict_request \<Rightarrow> failure + raw_frame" where
  "normalized_table av req =
     (case pr_data req of
        None \<Rightarrow> Inl (HTTPException 400 DDataRequired)
      | Some data \<Rightarrow>
          (if data = [] then Inl (HTTPException 400 DDataRequired)
           else
             (case rows_of_data data of
                Inl e \<Rightarrow>
                  (if is_Exception e then Inl (HTTPException 400 DInterpretFailed)
                   else Inl (Raised e))
              | Inr rows \<Rightarrow>
                  (if rows = [] then Inl (HTTPException 400 DNoRows)
                   else if index_candidates (pr_index_col req) (map fst data) = []
                   then Inl (HTTPException 400 DNoTimestampColumn)
                   else
                     (case assign_index av (index_candidates (pr_index_col req) (map fst data))
                             (map fst data) rows of
                        Inl f \<Rightarrow> Inl f
                      | Inr None \<Rightarrow> Inl (HTTPException 400 DNoDatetimeIndex)
                      | Inr (Some indexed) \<Rightarrow>
                          (case strip_timezones av
                                  (indexed\<lparr>rf_rows := sort_key fst (rf_rows indexed)\<rparr>) of
                             Inl e \<Rightarrow> Inl (Raised e)
                           | Inr stripped \<Rightarrow> Inr stripped))))))"

text \<open>Lines 538-539: \<^verbatim>\<open>df_tmp.empty\<close> holds of a table without rows and of a table without
  columns, which is what is left of a payload that has the timestamp column only.\<close>

definition prepare_indexed :: "api_env \<Rightarrow> predict_request \<Rightarrow> failure + raw_frame" where
  "prepare_indexed av req =
     (case normalized_table av req of
        Inl f \<Rightarrow> Inl f
      | Inr stripped \<Rightarrow>
          (if rf_rows stripped = [] \<or> rf_columns stripped = []
           then Inl (HTTPException 400 DNoRowsAfterNormalization)
           else Inr stripped))"

text \<open>Lines 556-563: every column through \<^verbatim>\<open>pd.to_numeric\<close>; the columns that fail are
  collected. The result pairs the failed names with the converted columns.\<close>

fun convert_columns ::
  "api_env \<Rightarrow> raw_frame \<Rightarrow> nat list \<Rightarrow> string list \<times> cell list list" where
  "convert_columns av t [] = ([], [])"
| "convert_columns av t (j # js) =
     (case to_numeric av (map (\<lambda>(ts, r). r ! j) (rf_rows t)) of
        Inl e \<Rightarrow> (rf_columns t ! j # fst (convert_columns av t js),
                  replicate (length (rf_rows t)) None # snd (convert_columns av t js))
      | Inr vs \<Rightarrow> (fst (convert_columns av t js), vs # snd (convert_columns av t js)))"

text \<open>Lines 541-574: the duplicate-timestamp check, the numeric coercion, the required
  columns and the time features.\<close>

definition validate_indexed ::
  "api_env \<Rightarrow> inferencer option \<Rightarrow> raw_frame \<Rightarrow> failure + (frame \<times> string list)" where
  "validate_indexed av service t =
     (let unique_timestamps = length (remdups (map fst (rf_rows t)));
          total_rows = length (rf_rows t)
      in if unique_timestamps = 1 \<and> total_rows > 1
         then Inl (HTTPException 400 (DAllTimestampsIdentical total_rows (fst (hd (rf_rows t)))))
         else
           (let conv = convert_columns av t [0 ..< length (rf_columns t)];
                required_base = expected_feature_columns_of service;
                missing_base = filter (\<lambda>c. c \<notin> set (rf_columns t)) required_base
            in if fst conv \<noteq> [] then Inl (HTTPException 400 (DNonNumericColumns (sort (fst conv))))
               else if missing_base \<noteq> []
               then Inl (HTTPException 400 (DMissingFeatureColumns missing_base))
               else Inr (time_to_feature (time_encoding (executor_env av))
                           \<lparr>f_columns = rf_columns t,
                            f_rows = map (\<lambda>k. (fst (rf_rows t ! k), map (\<lambda>col. col ! k) (snd conv)))
                                       [0 ..< length (rf_rows t)]\<rparr>,
                         required_base)))"

definition prepare_dataframe_for_inference ::
  "api_env \<Rightarrow> predict_request \<Rightarrow> inferencer option \<Rightarrow> failure + (frame \<times> string list)" where
  "prepare_dataframe_for_inference av req service =
     (case prepare_indexed av req of
        Inl f \<Rightarrow> Inl f
      | Inr t \<Rightarrow> validate_indexed av service t)"

subsection \<open>The concurrency gate and the queue metrics\<close>

text \<open>The counters of \<^verbatim>\<open>queue_metrics\<close> (the wall-clock durations are left out) and the value
  of the \<^verbatim>\<open>asyncio.Semaphore\<close>, the number of free slots.\<close>

record api_state =
  qm_enqueued :: int
  qm_active :: int
  qm_completed :: int
  qm_served_cached :: int
  qm_prep_samples :: int
  qm_wait_samples :: int
  qm_exec_samples :: int
  qm_error_500_total :: int
  qm_last_error_type :: "string option"
  sem_value :: int
  service :: "inferencer option"

text \<open>Lines 906-914 and 996-999: the bookkeeping right after the slot is acquired, and the
  \<^verbatim>\<open>finally\<close> clause.\<close>

definition after_acquire :: "api_state \<Rightarrow> api_state" where
  "after_acquire st =
     st\<lparr>sem_value := sem_value st - 1, qm_active := qm_active st + 1,
        qm_wait_samples := qm_wait_samples st + 1\<rparr>"

definition finally_release :: "api_state \<Rightarrow> api_state" where
  "finally_release st =
     st\<lparr>qm_active := max 0 (qm_active st - 1), sem_value := sem_value st + 1\<rparr>"

subsection \<open>The \<^verbatim>\<open>/predict\<close> handler\<close>

record response_payload =
  rp_run_id :: "string option"
  rp_predictions :: "(timestamp \<times> (string \<times> cell) list) list"

text \<open>What a request ends in: a response, a raised failure, or \<open>Blocked\<close> when the request
  waits for a slot that no one frees (the handler awaits the semaphore without a
  timeout).\<close>

datatype outcome =
    Success response_payload
  | SuccessCached last_prediction
  | ForcedOk
  | Failed failure
  | Blocked

text \<open>\<^verbatim>\<open>simulate_delay_if_enabled\<close> (inferencer.py 127-133): returns at once unless the delay
  is positive, else awaits \<^verbatim>\<open>asyncio.sleep\<close>. \<open>None\<close>: the coroutine returns.\<close>

definition simulate_delay_if_enabled :: "api_env \<Rightarrow> exn option" where
  "simulate_delay_if_enabled av =
     (if simulate_delay_secs av \<le> 0 then None else sleep_outcome av)"

text \<open>Lines 1010-1035: the rows of the result, the column \<^verbatim>\<open>value\<close> alone when there is
  one.\<close>

definition serialize_predictions :: "frame \<Rightarrow> (timestamp \<times> (string \<times> cell) list) list" where
  "serialize_predictions d =
     (let cols = (if ''value'' \<in> set (f_columns d) then [''value''] else f_columns d)
      in map (\<lambda>(t, r). (t, map (\<lambda>c. (c, r ! the (col_pos (f_columns d) c))) cols)) (f_rows d))"

text \<open>Lines 1037-1069: the response is built, stored as the last response, returned.\<close>

definition respond_success :: "frame \<Rightarrow> api_state \<Rightarrow> outcome \<times> api_state" where
  "respond_success d st =
     (Success \<lparr>rp_run_id = map_option current_run_id (service st),
               rp_predictions = serialize_predictions d\<rparr>,
      st\<lparr>service :=
           map_option
             (\<lambda>svc. svc\<lparr>last_prediction_response :=
                          Some (LastResponse (serialize_predictions d))\<rparr>)
             (service st)\<rparr>)"

text \<open>
  Lines 937-999: the \<^verbatim>\<open>try\<close> block with its \<^verbatim>\<open>except\<close> clauses; the caller applies the
  \<^verbatim>\<open>finally\<close> clause. The result is the table on success, or what is raised.
\<close>

definition guarded_execute ::
  "api_env \<Rightarrow> frame \<Rightarrow> int \<Rightarrow> api_state \<Rightarrow> (failure + frame) \<times> api_state" where
  "guarded_execute av df_for_inference effective_inference_length st =
     (case service st of
        None \<Rightarrow>
          (Inl (HTTPException 503 DServiceNotReady),
           st\<lparr>qm_error_500_total := qm_error_500_total st + 1,
              qm_last_error_type := Some ''InferencerUnavailable''\<rparr>)
      | Some svc \<Rightarrow>
          (case perform_inference (executor_env av) (Some df_for_inference)
                  (Some effective_inference_length) svc of
             (Inr None, svc') \<Rightarrow>
               (Inl (HTTPException 500 DInferenceSkipped),
                st\<lparr>service := Some svc', qm_error_500_total := qm_error_500_total st + 1,
                   qm_last_error_type := Some ''InferenceSkipped''\<rparr>)
           | (Inr (Some result_df), svc') \<Rightarrow>
               (Inr result_df,
                st\<lparr>service := Some svc', qm_completed := qm_completed st + 1,
                   qm_last_error_type := None, qm_exec_samples := qm_exec_samples st + 1\<rparr>)
           | (Inl (KeyError k), svc') \<Rightarrow>
               (Inl (HTTPException 400 (DMissingColumnsForInference k)),
                st\<lparr>service := Some svc', qm_last_error_type := Some ''MissingColumns''\<rparr>)
           | (Inl e, svc') \<Rightarrow>
               (if is_Exception e
                then (Inl (HTTPException 500 DExecutionFailed),
                      st\<lparr>service := Some svc', qm_error_500_total := qm_error_500_total st + 1,
                         qm_last_error_type := Some ''Exception''\<rparr>)
                else (Inl (Raised e), st\<lparr>service := Some svc'\<rparr>))))"

text \<open>
  Lines 899-1069, from the semaphore on. A request that finds no free slot waits. After
  the slot is taken and counted, the optional delay runs inside
  \<^verbatim>\<open>try ... except Exception: pass\<close>; only then does the \<^verbatim>\<open>try ... finally\<close> begin whose
  \<^verbatim>\<open>finally\<close> clause gives the slot back.
\<close>

definition serve_with_slot :: "api_env \<Rightarrow> frame \<Rightarrow> int \<Rightarrow> api_state \<Rightarrow> outcome \<times> api_state" where
  "serve_with_slot av df_for_inference effective_inference_length st0 =
     (let st = st0\<lparr>qm_enqueued := qm_enqueued st0 + 1\<rparr>
      in if sem_value st \<le> 0 then (Blocked, st)
         else
           (let st1 = after_acquire st;
                delay = (case service st1 of
                           None \<Rightarrow> None
                         | Some svc \<Rightarrow> simulate_delay_if_enabled av)
            in case delay of
                 Some e \<Rightarrow>
                   (if is_Exception e
                    then (case guarded_execute av df_for_inference effective_inference_length st1 of
                            (Inl f, st2) \<Rightarrow> (Failed f, finally_release st2)
                          | (Inr result_df, st2) \<Rightarrow> respond_success result_df (finally_release st2))
                    else (Failed (Raised e), st1))
               | None \<Rightarrow>
                   (case guarded_execute av df_for_inference effective_inference_length st1 of
                      (Inl f, st2) \<Rightarrow> (Failed f, finally_release st2)
                    | (Inr result_df, st2) \<Rightarrow> respond_success result_df (finally_release st2))))"

text \<open>Lines 857-897: the preparation of the table, every failure of which is raised before
  the semaphore is touched.\<close>

definition resolve_input ::
  "api_env \<Rightarrow> predict_request option \<Rightarrow> api_state \<Rightarrow> failure + frame" where
  "resolve_input av req st =
     (case (case req of
              None \<Rightarrow> Inr None
            | Some r \<Rightarrow>
                (if pr_data r = None \<or> pr_data r = Some [] then Inr None
                 else
                   (case prepare_dataframe_for_inference av r (service st) of
                      Inl (HTTPException code d) \<Rightarrow> Inl (HTTPException code d)
                    | Inl (Raised e) \<Rightarrow>
                        (if is_Exception e then Inl (HTTPException 400 DParseFailed)
                         else Inl (Raised e))
                    | Inr p \<Rightarrow> Inr (Some p)))) of
        Inl f \<Rightarrow> Inl f
      | Inr None \<Rightarrow>
          (case service st of
             None \<Rightarrow> Inl (HTTPException 400 DNoCachedDataframe)
           | Some svc \<Rightarrow>
               (case df svc of
                  None \<Rightarrow> Inl (HTTPException 400 DNoCachedDataframe)
                | Some d \<Rightarrow> Inr d))
      | Inr (Some (prepared_df, required_base_columns)) \<Rightarrow>
          (if filter (\<lambda>c. c \<notin> set (f_columns prepared_df)) required_base_columns \<noteq> []
           then Inl (HTTPException 400
                  (DMissingFeatureColumns
                     (filter (\<lambda>c. c \<notin> set (f_columns prepared_df)) required_base_columns)))
           else Inr prepared_df))"

text \<open>Lines 826-845: the cache short-circuit.\<close>

definition cached_response :: "api_env \<Rightarrow> predict_request option \<Rightarrow> int option \<Rightarrow> api_state
    \<Rightarrow> last_prediction option" where
  "cached_response av req inference_length st =
     (if cache_enabled av
         \<and> (case req of
              None \<Rightarrow> True
            | Some r \<Rightarrow> (pr_data r = None \<or> pr_data r = Some []) \<and> inference_length = None
                        \<and> pr_inference_length r = None)
      then (case service st of None \<Rightarrow> None | Some svc \<Rightarrow> last_prediction_response svc)
      else None)"

text \<open>The handler (lines 805-1069). \<open>inference_length\<close> is the query parameter.\<close>

definition predict ::
  "api_env \<Rightarrow> predict_request option \<Rightarrow> int option \<Rightarrow> api_state \<Rightarrow> outcome \<times> api_state" where
  "predict av req inference_length st =
     (case cached_response av req inference_length st of
        Some last_response \<Rightarrow>
          (SuccessCached last_response, st\<lparr>qm_served_cached := qm_served_cached st + 1\<rparr>)
      | None \<Rightarrow>
          (if force_ok av then (ForcedOk, st)
           else
             (case resolve_input av req st of
                Inl f \<Rightarrow> (Failed f, st)
              | Inr df_for_inference \<Rightarrow>
                  serve_with_slot av df_for_inference
                    (case inference_length of
                       Some n \<Rightarrow> n
                     | None \<Rightarrow>
                         (case req of
                            None \<Rightarrow> 1
                          | Some r \<Rightarrow> (case pr_inference_length r of Some n \<Rightarrow> n | None \<Rightarrow> 1)))
                    (st\<lparr>qm_prep_samples := qm_prep_samples st + 1\<rparr>))))"

section \<open>Vocabulary of the properties\<close>

text \<open>An attempt of the tolerant predictor call after the first one counts as failed when
  it raises an \<^verbatim>\<open>Exception\<close> or leaves \<^verbatim>\<open>multi_step_pred\<close> at None.\<close>

fun attempt_failed :: "exn + pyvalue \<Rightarrow> bool" where
  "attempt_failed (Inl e) = is_Exception e"
| "attempt_failed (Inr v) = (v = VNone)"

text \<open>The two active counters under any interleaving of the steps that change them: a
  request raising and lowering \<^verbatim>\<open>queue_metrics["active"]\<close>, a job raising and lowering
  \<^verbatim>\<open>_active_jobs\<close>.\<close>

datatype counter_step = RequestStarts | RequestFinishes | JobStarts | JobFinishes

fun apply_counter_step :: "api_state \<times> inferencer \<Rightarrow> counter_step \<Rightarrow> api_state \<times> inferencer" where
  "apply_counter_step (st, s) RequestStarts = (after_acquire st, s)"
| "apply_counter_step (st, s) RequestFinishes = (finally_release st, s)"
| "apply_counter_step (st, s) JobStarts = (st, mark_job_started s)"
| "apply_counter_step (st, s) JobFinishes = (st, mark_job_finished s)"

text \<open>The horizons \<^verbatim>\<open>h\<close> of the dicts handed to the predictor, in the order of the calls,
  the numbers of rows of the frames handed to it, and the number of rows of what
  \<^verbatim>\<open>perform_inference\<close> returned.\<close>

fun requested_horizons :: "payload list \<Rightarrow> int list" where
  "requested_horizons [] = []"
| "requested_horizons (PDict i # ps) = si_h i # requested_horizons ps"
| "requested_horizons (p # ps) = requested_horizons ps"

fun given_rows :: "payload list \<Rightarrow> nat list" where
  "given_rows [] = []"
| "given_rows (PFrame d # ps) = n_rows d # given_rows ps"
| "given_rows (p # ps) = given_rows ps"

fun result_rows :: "exn + frame option \<Rightarrow> exn + nat option" where
  "result_rows (Inl e) = Inl e"
| "result_rows (Inr None) = Inr None"
| "result_rows (Inr (Some t)) = Inr (Some (n_rows t))"

text \<open>Whether one of the next \<open>n\<close> uploads to the log object succeeds, for the outcomes
  \<open>fails\<close> the sink has in store for them (none in store: the upload succeeds); and the
  pair of calls of \<^verbatim>\<open>_save_and_publish_predictions\<close> with the same table, one right after
  the other.\<close>

fun accepts_within :: "bool list \<Rightarrow> nat \<Rightarrow> bool" where
  "accepts_within fails 0 = False"
| "accepts_within [] (Suc n) = True"
| "accepts_within (f # fs) (Suc n) = (if f then accepts_within fs n else True)"

definition save_twice :: "env \<Rightarrow> frame \<Rightarrow> inferencer \<Rightarrow> inferencer" where
  "save_twice ev d s = save_and_publish_predictions ev d (save_and_publish_predictions ev d s)"

section \<open>Concrete inputs\<close>

text \<open>A small environment: rows 60 nanoseconds apart, windows of one row and one feature,
  a scaler subset that is the scaler itself, two period strings.\<close>

definition ex_env :: env where
  "ex_env =
     \<lparr>SAMPLE_IDX = 0, INFERENCE_LENGTH = 1, disable_log_upload = False, USE_KAFKA = False,
      check_uniform = (\<lambda>d. Inr 60),
      window_data = (\<lambda>d tf i out. Inr \<lparr>w_feature_dim = 1, w_data = [[[1]], [[2]]]\<rparr>),
      subset_scaler = (\<lambda>sc orig cols. Inr sc),
      parse_timedelta =
        (\<lambda>p. if p = ''60ns'' then Inr 60 else if p = ''120ns'' then Inr 120 else Inl ValueError),
      time_encoding = (\<lambda>t. [0, 0, 0, 0, 0, 0]),
      sha16 = (\<lambda>d. Some ''0123456789abcdef'')\<rparr>"

definition ex_df :: frame where
  "ex_df = \<lparr>f_columns = [''value''],
            f_rows = [(0, [Some 1]), (60, [Some 2]), (120, [Some 3])]\<rparr>"

definition ex_sink :: sink where
  "ex_sink = \<lparr>sk_lines = [], sk_get_fails = [], sk_post_fails = []\<rparr>"

text \<open>An Inferencer as \<^verbatim>\<open>__init__\<close> leaves it: no table, no model, no scaler.\<close>

definition ex_init :: inferencer where
  "ex_init =
     \<lparr>df = None, input_seq_len = 0, output_seq_len = 0, current_model = None,
      current_scaler = None, model_class = [], params = Map.empty, current_run_id = [],
      expected_feature_columns = [], emitted_prediction_keys = {},
      last_prediction_response = None, active_jobs = 0, predict_history = [],
      log_sink = ex_sink, printed = []\<rparr>"

text \<open>Predictors: one that raises a different error at each of its first three calls; a
  sequence model that answers one step with one value; a seasonal model that echoes the
  frame it is given; a stats model that returns one row per requested step.\<close>

definition ex_failing_predictor :: predictor where
  "ex_failing_predictor hist p = Inl (OtherError (length hist))"

definition ex_sequence_predictor :: predictor where
  "ex_sequence_predictor hist p = Inr (VArray3 [[[5]]])"

definition ex_seasonal_predictor :: predictor where
  "ex_seasonal_predictor hist p = (case p of PFrame d \<Rightarrow> Inr (VFrame d) | _ \<Rightarrow> Inl TypeError)"

definition ex_stats_predictor :: predictor where
  "ex_stats_predictor hist p =
     (case p of
        PDict i \<Rightarrow>
          Inr (VFrame \<lparr>f_columns = [''value''],
                       f_rows = map (\<lambda>k. (int k * 60, [Some 0])) [0 ..< nat (si_h i)]\<rparr>)
      | _ \<Rightarrow> Inl TypeError)"

text \<open>A scaler whose \<^verbatim>\<open>inverse_transform\<close> raises.\<close>

definition ex_broken_scaler :: scaler where
  "ex_broken_scaler =
     \<lparr>feature_names_in = [], feature_names = [], inverse_transform = (\<lambda>d. Inl ValueError)\<rparr>"

text \<open>The endpoint: no cache, a parser for the timestamps of the examples, numbers as they
  are, no delay.\<close>

definition ex_to_datetime :: "json list \<Rightarrow> exn + timestamp option list" where
  "ex_to_datetime vs =
     Inr (map (\<lambda>v. if v = JStr ''2024-01-01T00:00:00'' then Some 1704067200000000000
                    else if v = JStr ''2024-01-01T00:01:00'' then Some 1704067260000000000
                    else if v = JStr ''2024-01-01T00:02:00'' then Some 1704067320000000000
                    else None) vs)"

definition ex_to_numeric :: "json list \<Rightarrow> exn + cell list" where
  "ex_to_numeric vs =
     (if list_all (\<lambda>v. case v of JNum x \<Rightarrow> True | JNull \<Rightarrow> True | _ \<Rightarrow> False) vs
      then Inr (map (\<lambda>v. case v of JNum x \<Rightarrow> Some x | _ \<Rightarrow> None) vs)
      else Inl ValueError)"

definition ex_api_env :: api_env where
  "ex_api_env =
     \<lparr>cache_enabled = False, force_ok = False, to_datetime = ex_to_datetime,
      to_numeric = ex_to_numeric, strip_timezones = (\<lambda>t. Inr t),
      simulate_delay_secs = 0, sleep_outcome = None, executor_env = ex_env\<rparr>"

definition ex_request :: predict_request where
  "ex_request =
     \<lparr>pr_inference_length = Some 3,
      pr_data = Some [(''ts'', [JStr ''2024-01-01T00:00:00'', JStr ''2024-01-01T00:01:00'',
                              JStr ''2024-01-01T00:02:00'']),
                      (''value'', [JNum 1, JNum 2, JNum 3])],
      pr_index_col = None\<rparr>"

text \<open>The scenario of the spec: three rows, all stamped 2024-01-01T00:00:00.\<close>

definition ex_request_same_instant :: predict_request where
  "ex_request_same_instant =
     \<lparr>pr_inference_length = None,
      pr_data = Some [(''ts'', [JStr ''2024-01-01T00:00:00'', JStr ''2024-01-01T00:00:00'',
                              JStr ''2024-01-01T00:00:00'']),
                      (''value'', [JNum 1, JNum 2, JNum 3])],
      pr_index_col = None\<rparr>"

text \<open>The table of \<open>ex_request\<close> once its index is set and its column is numeric.\<close>

definition ex_request_df :: frame where
  "ex_request_df =
     \<lparr>f_columns = [''value''],
      f_rows = [(1704067200000000000, [Some 1]), (1704067260000000000, [Some 2]),
                (1704067320000000000, [Some 3])]\<rparr>"

text \<open>Three rows with the same timestamp and no other column.\<close>

definition ex_request_only_timestamps :: predict_request where
  "ex_request_only_timestamps =
     \<lparr>pr_inference_length = None,
      pr_data = Some [(''ts'', [JStr ''2024-01-01T00:00:00'', JStr ''2024-01-01T00:00:00'',
                              JStr ''2024-01-01T00:00:00''])],
      pr_index_col = None\<rparr>"

definition ex_api_state :: "inferencer option \<Rightarrow> api_state" where
  "ex_api_state svc =
     \<lparr>qm_enqueued = 0, qm_active = 0, qm_completed = 0, qm_served_cached = 0,
      qm_prep_samples = 0, qm_wait_samples = 0, qm_exec_samples = 0, qm_error_500_total = 0,
      qm_last_error_type = None, sem_value = 2, service = svc\<rparr>"

text \<open>Services with a model loaded: a sequence model with windows of one row, a seasonal
  model, and a stats model trained at the downsampling period \<open>ds\<close> on data with a row
  every 60 nanoseconds.\<close>

definition ex_sequence_service :: inferencer where
  "ex_sequence_service =
     ex_init\<lparr>current_model := Some ex_sequence_predictor, model_class := ''pytorch'',
             input_seq_len := 1, output_seq_len := 1\<rparr>"

definition ex_seasonal_service :: inferencer where
  "ex_seasonal_service =
     ex_init\<lparr>current_model := Some ex_seasonal_predictor, model_class := ''prophet''\<rparr>"

definition ex_stats_service :: "string \<Rightarrow> inferencer" where
  "ex_stats_service ds =
     ex_init\<lparr>current_model := Some ex_stats_predictor, model_class := ''statsforecast'',
             params := [''downsampling'' \<mapsto> ds, ''frequency'' \<mapsto> ''60ns'']\<rparr>"

text \<open>A service of the run \<^verbatim>\<open>run-1\<close>, and a sink that rejects the next three uploads.\<close>

definition ex_run_service :: inferencer where
  "ex_run_service = ex_init\<lparr>current_run_id := ''run-1''\<rparr>"

definition ex_rejecting_sink :: sink where
  "ex_rejecting_sink = \<lparr>sk_lines = [], sk_get_fails = [], sk_post_fails = [True, True, True]\<rparr>"

section \<open>Properties of the executor\<close>

subsection \<open>What printing an event leaves alone\<close>

lemma emit_fields:
  "predict_history (emit e s) = predict_history s"
  "current_model (emit e s) = current_model s"
  "current_scaler (emit e s) = current_scaler s"
  "active_jobs (emit e s) = active_jobs s"
  "log_sink (emit e s) = log_sink s"
  "emitted_prediction_keys (emit e s) = emitted_prediction_keys s"
  "current_run_id (emit e s) = current_run_id s"
  "printed (emit e s) = printed s @ [e]"
  by (simp_all add: emit_def)

lemma call_predict_Some:
  "current_model s = Some m \<Longrightarrow>
   call_predict p s = (m (predict_history s) p, s\<lparr>predict_history := predict_history s @ [p]\<rparr>)"
  by (simp add: call_predict_def)

subsection \<open>The tolerant predictor call\<close>

lemma fallback_flatten_result:
  assumes "current_model s = Some m"
  shows "fst (fallback_flatten e1 d s) =
           (if attempt_failed (m (predict_history s) (PArray (reshape_1_m1 d))) then Inl e1
            else m (predict_history s) (PArray (reshape_1_m1 d)))
       \<and> predict_history (snd (fallback_flatten e1 d s))
           = predict_history s @ [PArray (reshape_1_m1 d)]"
  using assms
  by (cases "m (predict_history s) (PArray (reshape_1_m1 d))")
     (auto simp: fallback_flatten_def call_predict_Some emit_fields)

text \<open>
  C7. In the sequence branch the predictor is called with the window as given, of shape
  (1, input_window_len, feature_count); when that call raises, with the window without its
  leading dimension; when that fails too, with the window flattened to one row; never in
  another order and never a fourth time. When all three fail, the error of the first call
  is the one raised. (A call that raises something that is not an \<^verbatim>\<open>Exception\<close> ends the
  sequence with that error.)
\<close>

theorem predict_with_fallback_order:
  fixes w :: "real list list" and base :: inferencer and m :: predictor
  defines "a \<equiv> PArray (Arr3 [w])" and "b \<equiv> PArray (Arr2 w)" and "c \<equiv> PArray (Arr2 [concat w])"
  defines "s \<equiv> base\<lparr>current_model := Some m\<rparr>"
  shows "(let h = predict_history s;
             r = fst (predict_with_fallback (Arr3 [w]) s);
             h' = predict_history (snd (predict_with_fallback (Arr3 [w]) s))
         in case m h a of
              Inr v \<Rightarrow> r = Inr v \<and> h' = h @ [a]
            | Inl e1 \<Rightarrow>
                if \<not> is_Exception e1 then r = Inl e1 \<and> h' = h @ [a]
                else if \<not> attempt_failed (m (h @ [a]) b)
                     then r = m (h @ [a]) b \<and> h' = h @ [a, b]
                else if \<not> attempt_failed (m (h @ [a, b]) c)
                     then r = m (h @ [a, b]) c \<and> h' = h @ [a, b, c]
                else r = Inl e1 \<and> h' = h @ [a, b, c])"
proof -
  have m: "current_model s = Some m" by (simp add: s_def)
  show ?thesis
  proof (cases "m (predict_history s) a")
    case (Inr v)
    then show ?thesis
      using m by (simp add: predict_with_fallback_def call_predict_Some a_def Let_def)
  next
    case (Inl e1)
    show ?thesis
    proof (cases "is_Exception e1")
      case False
      then show ?thesis
        using m Inl by (simp add: predict_with_fallback_def call_predict_Some a_def Let_def)
    next
      case True
      define s1 where "s1 = emit (EvPredictError e1) (s\<lparr>predict_history := predict_history s @ [a]\<rparr>)"
      have r1: "predict_with_fallback (Arr3 [w]) s = fallback_squeeze e1 (Arr3 [w]) s1"
        using m Inl True by (simp add: predict_with_fallback_def call_predict_Some a_def s1_def)
      have m1: "current_model s1 = Some m" and h1: "predict_history s1 = predict_history s @ [a]"
        using m by (simp_all add: s1_def emit_fields)
      show ?thesis
      proof (cases "attempt_failed (m (predict_history s @ [a]) b)")
        case False
        then show ?thesis
          using Inl True r1 m1 h1
          by (cases "m (predict_history s @ [a]) b")
             (auto simp: fallback_squeeze_def call_predict_Some b_def Let_def emit_fields)
      next
        case fb: True
        obtain s2 where r2: "fallback_squeeze e1 (Arr3 [w]) s1 = fallback_flatten e1 (Arr3 [w]) s2"
          and m2: "current_model s2 = Some m"
          and h2: "predict_history s2 = predict_history s @ [a, b]"
          using fb m1 h1
          by (cases "m (predict_history s @ [a]) b")
             (auto simp: fallback_squeeze_def call_predict_Some b_def emit_fields)
        from fallback_flatten_result[OF m2, of e1 "Arr3 [w]"]
        show ?thesis
          using Inl True fb r1 r2 h2 by (auto simp: Let_def c_def)
      qed
    qed
  qed
qed

theorem predict_with_fallback_order_witness:
  "fst (predict_with_fallback (Arr3 [[[1, 2], [3, 4]]])
          (ex_init\<lparr>current_model := Some ex_failing_predictor\<rparr>)) = Inl (OtherError 0)
   \<and> predict_history (snd (predict_with_fallback (Arr3 [[[1, 2], [3, 4]]])
          (ex_init\<lparr>current_model := Some ex_failing_predictor\<rparr>)))
       = [PArray (Arr3 [[[1, 2], [3, 4]]]), PArray (Arr2 [[1, 2], [3, 4]]),
          PArray (Arr2 [[1, 2, 3, 4]])]"
  using predict_with_fallback_order [where m = ex_failing_predictor and base = ex_init
      and w = "[[1, 2], [3, 4]]"]
  by (simp add: ex_failing_predictor_def ex_init_def Let_def)

subsection \<open>The job counter and the preconditions of \<^verbatim>\<open>perform_inference\<close>\<close>

text \<open>
  C6. When the input window length is positive and the table the call works on (the
  override, or else the service table) has fewer rows than input window plus output
  window, \<^verbatim>\<open>perform_inference\<close> returns None: no exception, no predictor call, no log
  write.
\<close>

theorem insufficient_rows_skipped:
  assumes "(case df_eval of None \<Rightarrow> df s | Some d' \<Rightarrow> Some d') = Some d"
    and "0 < input_seq_len s"
    and "int (n_rows d) < input_seq_len s + output_seq_len s"
  shows "fst (perform_inference ev df_eval n s) = Inr None
       \<and> predict_history (snd (perform_inference ev df_eval n s)) = predict_history s
       \<and> log_sink (snd (perform_inference ev df_eval n s)) = log_sink s"
  using assms
  by (simp add: perform_inference_def perform_inference_body_def Let_def emit_fields
        mark_job_started_def mark_job_finished_def)

theorem insufficient_rows_skipped_witness:
  "fst (perform_inference ex_env (Some ex_df) (Some 5)
          (ex_init\<lparr>current_model := Some ex_sequence_predictor, model_class := ''pytorch'',
                   input_seq_len := 12, output_seq_len := 1\<rparr>)) = Inr None"
  using insufficient_rows_skipped [where df_eval = "Some ex_df" and d = ex_df
      and ev = ex_env and n = "Some 5"
      and s = "ex_init\<lparr>current_model := Some ex_sequence_predictor, model_class := ''pytorch'',
               input_seq_len := 12, output_seq_len := 1\<rparr>"]
  by (simp add: ex_df_def n_rows_def)

subsection \<open>The active counters\<close>

lemma counters_step:
  assumes "0 \<le> qm_active (fst p) \<and> 0 \<le> active_jobs (snd p)"
  shows "0 \<le> qm_active (fst (apply_counter_step p e))
       \<and> 0 \<le> active_jobs (snd (apply_counter_step p e))"
  using assms
  by (cases p; cases e)
     (simp_all add: after_acquire_def finally_release_def mark_job_started_def
        mark_job_finished_def)

text \<open>
  C10. Starting from counters that are not negative (both are 0 at process start), after
  any sequence of request starts, request finishes, job starts and job finishes, in any
  order and also with more finishes than starts, \<^verbatim>\<open>queue_metrics["active"]\<close> and
  \<^verbatim>\<open>active_inference_jobs\<close> are not negative.
\<close>

theorem active_counters_never_negative:
  assumes "0 \<le> qm_active st" and "0 \<le> active_jobs s"
  shows "0 \<le> qm_active (fst (foldl apply_counter_step (st, s) steps))
       \<and> 0 \<le> active_jobs (snd (foldl apply_counter_step (st, s) steps))"
proof -
  have "0 \<le> qm_active (fst (foldl apply_counter_step p steps))
       \<and> 0 \<le> active_jobs (snd (foldl apply_counter_step p steps))"
    if "0 \<le> qm_active (fst p) \<and> 0 \<le> active_jobs (snd p)" for p
    using that
  proof (induction steps arbitrary: p)
    case Nil
    then show ?case by simp
  next
    case (Cons e steps)
    from counters_step[OF Cons.prems, of e] Cons.IH show ?case by simp
  qed
  from this[of "(st, s)"] assms show ?thesis by simp
qed

theorem active_counters_never_negative_witness:
  "0 \<le> qm_active (fst (foldl apply_counter_step (ex_api_state None, ex_init)
                          [RequestFinishes, JobFinishes, RequestStarts, JobStarts,
                           JobFinishes, JobFinishes, RequestFinishes, RequestFinishes]))
   \<and> 0 \<le> active_jobs (snd (foldl apply_counter_step (ex_api_state None, ex_init)
                          [RequestFinishes, JobFinishes, RequestStarts, JobStarts,
                           JobFinishes, JobFinishes, RequestFinishes, RequestFinishes]))"
  using active_counters_never_negative [where st = "ex_api_state None" and s = ex_init
      and steps = "[RequestFinishes, JobFinishes, RequestStarts, JobStarts,
        JobFinishes, JobFinishes, RequestFinishes, RequestFinishes]"]
  by (simp add: ex_api_state_def ex_init_def)

section \<open>Properties of the serving endpoint\<close>

subsection \<open>Request preparation\<close>

lemma single_timestamp:
  assumes "length (remdups xs) = 1"
  shows "list_all (\<lambda>x. x = hd xs) xs"
proof -
  from assms have "card (set xs) = 1" by (simp add: length_remdups_card_conv)
  then obtain x where x: "set xs = {x}" by (auto simp: card_1_singleton_iff)
  then have "xs \<noteq> []" by auto
  then have "hd xs \<in> set xs" by simp
  with x have "hd xs = x" by simp
  with x show ?thesis by (auto simp: list_all_iff)
qed

text \<open>
  C4 as amended. When the table of a request, after its timestamps are parsed, its rows
  sorted and its time zones stripped, has more than one row and one unique timestamp, the
  preparer raises an HTTP 400 error and returns no table: "All N timestamps are identical
  (T)", where T is the first timestamp of the table and every row carries T, when the
  table has a column besides the timestamps; "Request data must include at least one row
  after normalization" when the timestamp column was the only one. The handler passes
  this error on with its state unchanged.
\<close>

theorem duplicate_timestamps_rejected:
  assumes "normalized_table av req = Inr t"
    and "1 < length (rf_rows t)"
    and "length (remdups (map fst (rf_rows t))) = 1"
  shows "prepare_dataframe_for_inference av req svc
           = Inl (HTTPException 400
                   (if rf_columns t = [] then DNoRowsAfterNormalization
                    else DAllTimestampsIdentical (length (rf_rows t)) (fst (hd (rf_rows t)))))
       \<and> list_all (\<lambda>row. fst row = fst (hd (rf_rows t))) (rf_rows t)
       \<and> (force_ok av \<or>
            predict av (Some req) q st
              = (Failed (HTTPException 400
                   (if rf_columns t = [] then DNoRowsAfterNormalization
                    else DAllTimestampsIdentical (length (rf_rows t)) (fst (hd (rf_rows t))))),
                 st))"
proof -
  let ?f = "HTTPException 400
              (if rf_columns t = [] then DNoRowsAfterNormalization
               else DAllTimestampsIdentical (length (rf_rows t)) (fst (hd (rf_rows t))))"
  have rows: "rf_rows t \<noteq> []" using assms(2) by auto
  have prep: "prepare_dataframe_for_inference av req svc' = Inl ?f" for svc'
    using assms rows
    by (simp add: prepare_dataframe_for_inference_def prepare_indexed_def validate_indexed_def)
  from single_timestamp[OF assms(3)]
  have every: "\<forall>x \<in> set (map fst (rf_rows t)). x = hd (map fst (rf_rows t))"
    by (simp only: list_all_iff)
  have first: "hd (map fst (rf_rows t)) = fst (hd (rf_rows t))"
    using rows by (simp add: hd_map)
  have same: "list_all (\<lambda>row. fst row = fst (hd (rf_rows t))) (rf_rows t)"
    unfolding list_all_iff
  proof
    fix row
    assume "row \<in> set (rf_rows t)"
    then have "fst row \<in> set (map fst (rf_rows t))" by simp
    with every have "fst row = hd (map fst (rf_rows t))" by blast
    with first show "fst row = fst (hd (rf_rows t))" by simp
  qed
  have "pr_data req \<noteq> None"
    using assms(1) by (cases "pr_data req") (simp_all add: normalized_table_def)
  moreover have "pr_data req \<noteq> Some []"
    using assms(1) by (auto simp: normalized_table_def)
  ultimately have data: "pr_data req \<noteq> None \<and> pr_data req \<noteq> Some []" by simp
  then have cache: "cached_response av (Some req) q st = None"
    by (auto simp: cached_response_def)
  have "resolve_input av (Some req) st = Inl ?f"
    using data prep[of "service st"] by (auto simp: resolve_input_def)
  with cache have "\<not> force_ok av \<Longrightarrow> predict av (Some req) q st = (Failed ?f, st)"
    by (simp add: predict_def)
  with prep same show ?thesis by blast
qed

lemma ex_same_instant_rows:
  "rows_of_data [(''ts'', [JStr ''2024-01-01T00:00:00'', JStr ''2024-01-01T00:00:00'',
                          JStr ''2024-01-01T00:00:00'']),
                 (''value'', [JNum 1, JNum 2, JNum 3])]
   = Inr [[JStr ''2024-01-01T00:00:00'', JNum 1], [JStr ''2024-01-01T00:00:00'', JNum 2],
          [JStr ''2024-01-01T00:00:00'', JNum 3]]"
  by (simp add: rows_of_data_def upt_conv_Cons)

lemma ex_candidates: "index_candidates None [''ts'', ''value''] = [''ts'']"
  by (simp add: index_candidates_def)

lemma ex_same_instant_indexed:
  "normalized_table ex_api_env ex_request_same_instant
     = Inr \<lparr>rf_columns = [''value''],
            rf_rows = [(1704067200000000000, [JNum 1]), (1704067200000000000, [JNum 2]),
                       (1704067200000000000, [JNum 3])]\<rparr>"
  unfolding normalized_table_def ex_request_same_instant_def
  by (simp add: ex_same_instant_rows ex_candidates)
     (simp add: ex_api_env_def ex_to_datetime_def)

theorem duplicate_timestamps_rejected_witness:
  "prepare_dataframe_for_inference ex_api_env ex_request_same_instant (Some ex_init)
     = Inl (HTTPException 400 (DAllTimestampsIdentical 3 1704067200000000000))
   \<and> predict ex_api_env (Some ex_request_same_instant) None (ex_api_state (Some ex_init))
     = (Failed (HTTPException 400 (DAllTimestampsIdentical 3 1704067200000000000)),
        ex_api_state (Some ex_init))"
proof -
  have "force_ok ex_api_env = False" by (simp add: ex_api_env_def)
  with duplicate_timestamps_rejected [OF ex_same_instant_indexed,
      where svc = "Some ex_init" and q = None and st = "ex_api_state (Some ex_init)"]
  show ?thesis by simp
qed

text \<open>
  C4, the claim as it stands fails. A payload that holds the timestamp column only, three
  times 2024-01-01T00:00:00: the table has three rows and one unique timestamp, and the
  preparer answers "Request data must include at least one row after normalization",
  since a table without columns is empty for pandas and that check comes first.
\<close>

theorem only_timestamps_rejected_as_empty:
  "normalized_table ex_api_env ex_request_only_timestamps
     = Inr \<lparr>rf_columns = [],
            rf_rows = [(1704067200000000000, []), (1704067200000000000, []),
                       (1704067200000000000, [])]\<rparr>
   \<and> prepare_dataframe_for_inference ex_api_env ex_request_only_timestamps (Some ex_init)
     = Inl (HTTPException 400 DNoRowsAfterNormalization)"
proof -
  have rows: "rows_of_data [(''ts'', [JStr ''2024-01-01T00:00:00'', JStr ''2024-01-01T00:00:00'',
                                     JStr ''2024-01-01T00:00:00''])]
                = Inr [[JStr ''2024-01-01T00:00:00''], [JStr ''2024-01-01T00:00:00''],
                       [JStr ''2024-01-01T00:00:00'']]"
    by (simp add: rows_of_data_def upt_conv_Cons)
  have candidates: "index_candidates None [''ts''] = [''ts'']"
    by (simp add: index_candidates_def)
  have table: "normalized_table ex_api_env ex_request_only_timestamps
     = Inr \<lparr>rf_columns = [],
            rf_rows = [(1704067200000000000, []), (1704067200000000000, []),
                       (1704067200000000000, [])]\<rparr>"
    unfolding normalized_table_def ex_request_only_timestamps_def
    by (simp add: rows candidates) (simp add: ex_api_env_def ex_to_datetime_def)
  then show ?thesis
    by (simp add: prepare_dataframe_for_inference_def prepare_indexed_def)
qed

subsection \<open>The slot and the counters around the executor call\<close>

lemma guarded_execute_keeps_gate:
  "sem_value (snd (guarded_execute av d n st)) = sem_value st
   \<and> qm_active (snd (guarded_execute av d n st)) = qm_active st"
  by (simp add: guarded_execute_def split: option.splits prod.splits sum.splits exn.splits)

lemma respond_success_keeps_gate:
  "sem_value (snd (respond_success d st)) = sem_value st
   \<and> qm_active (snd (respond_success d st)) = qm_active st"
  by (simp add: respond_success_def)

text \<open>Every failure of the preparation is raised with the state as it was: nothing is
  enqueued and no slot is taken.\<close>

lemma validation_failure_before_gate:
  assumes "cached_response av req q st = None" and "\<not> force_ok av"
    and "resolve_input av req st = Inl f"
  shows "predict av req q st = (Failed f, st)"
  using assms by (simp add: predict_def)

text \<open>Once the \<^verbatim>\<open>try ... finally\<close> block is reached, the slot is given back whatever the
  executor does.\<close>

lemma slot_released_after_execute:
  assumes "0 < sem_value st"
    and "service st = None \<or> simulate_delay_if_enabled av \<noteq> Some CancelledError"
  shows "sem_value (snd (serve_with_slot av d n st)) = sem_value st"
proof -
  let ?st1 = "after_acquire (st\<lparr>qm_enqueued := qm_enqueued st + 1\<rparr>)"
  have exec: "sem_value (snd (case guarded_execute av d n ?st1 of
                  (Inl f, st2) \<Rightarrow> (Failed f, finally_release st2)
                | (Inr result_df, st2) \<Rightarrow> respond_success result_df (finally_release st2)))
              = sem_value st"
    using guarded_execute_keeps_gate[of av d n ?st1]
    by (auto simp: respond_success_def finally_release_def after_acquire_def
          split: prod.splits sum.splits)
  have svc: "service ?st1 = service st" by (simp add: after_acquire_def)
  show ?thesis
  proof (cases "service st")
    case None
    with assms(1) exec svc show ?thesis by (simp add: serve_with_slot_def Let_def)
  next
    case (Some svc')
    with assms(2) have nc: "simulate_delay_if_enabled av \<noteq> Some CancelledError" by simp
    show ?thesis
    proof (cases "simulate_delay_if_enabled av")
      case None
      with Some assms(1) exec svc show ?thesis by (simp add: serve_with_slot_def Let_def)
    next
      case (Some e)
      with nc have "is_Exception e" by (cases e) simp_all
      with Some \<open>service st = Some svc'\<close> assms(1) exec svc show ?thesis
        by (simp add: serve_with_slot_def Let_def)
    qed
  qed
qed

text \<open>A cancellation that arrives while the handler awaits the simulated delay leaves the
  handler between the acquisition and the \<^verbatim>\<open>try ... finally\<close> block.\<close>

lemma cancelled_in_delay:
  assumes "0 < sem_value st" and "service st = Some svc"
    and "simulate_delay_if_enabled av = Some CancelledError"
  shows "serve_with_slot av d n st
           = (Failed (Raised CancelledError), after_acquire (st\<lparr>qm_enqueued := qm_enqueued st + 1\<rparr>))"
  using assms by (simp add: serve_with_slot_def Let_def after_acquire_def)


subsection \<open>The status codes of the handler\<close>













subsection \<open>The example request\<close>

lemma ex_request_rows:
  "rows_of_data [(''ts'', [JStr ''2024-01-01T00:00:00'', JStr ''2024-01-01T00:01:00'',
                          JStr ''2024-01-01T00:02:00'']),
                 (''value'', [JNum 1, JNum 2, JNum 3])]
   = Inr [[JStr ''2024-01-01T00:00:00'', JNum 1], [JStr ''2024-01-01T00:01:00'', JNum 2],
          [JStr ''2024-01-01T00:02:00'', JNum 3]]"
  by (simp add: rows_of_data_def upt_conv_Cons)

lemma ex_request_indexed:
  "prepare_indexed (ex_api_env\<lparr>simulate_delay_secs := x, sleep_outcome := y\<rparr>) ex_request
     = Inr \<lparr>rf_columns = [''value''],
            rf_rows = [(1704067200000000000, [JNum 1]), (1704067260000000000, [JNum 2]),
                       (1704067320000000000, [JNum 3])]\<rparr>"
  unfolding prepare_indexed_def normalized_table_def ex_request_def
  by (simp add: ex_request_rows ex_candidates)
     (simp add: ex_api_env_def ex_to_datetime_def)

lemma ex_request_converted:
  "convert_columns (ex_api_env\<lparr>simulate_delay_secs := x, sleep_outcome := y\<rparr>)
     \<lparr>rf_columns = [''value''],
      rf_rows = [(1704067200000000000, [JNum 1]), (1704067260000000000, [JNum 2]),
                 (1704067320000000000, [JNum 3])]\<rparr> [0]
   = ([], [[Some 1, Some 2, Some 3]])"
  by (simp add: ex_api_env_def ex_to_numeric_def)

lemma ex_request_prepared:
  assumes "df s = None" and "expected_feature_columns s = []"
  shows "prepare_dataframe_for_inference (ex_api_env\<lparr>simulate_delay_secs := x, sleep_outcome := y\<rparr>)
           ex_request (Some s)
         = Inr (time_to_feature (time_encoding ex_env) ex_request_df, [])"
  using assms
  by (simp add: prepare_dataframe_for_inference_def ex_request_indexed validate_indexed_def
        ex_request_converted expected_feature_columns_of_def upt_conv_Cons)
     (simp add: ex_api_env_def ex_request_df_def ex_to_numeric_def Let_def upt_conv_Cons)

lemma ex_request_resolved:
  assumes "df s = None" and "expected_feature_columns s = []"
  shows "resolve_input (ex_api_env\<lparr>simulate_delay_secs := x, sleep_outcome := y\<rparr>)
           (Some ex_request) (ex_api_state (Some s))
         = Inr (time_to_feature (time_encoding ex_env) ex_request_df)"
proof -
  have "pr_data ex_request \<noteq> None" and "pr_data ex_request \<noteq> Some []"
    by (simp_all add: ex_request_def)
  moreover have "service (ex_api_state (Some s)) = Some s"
    by (simp add: ex_api_state_def)
  ultimately show ?thesis
    by (auto simp: resolve_input_def ex_request_prepared[OF assms])
qed






text \<open>
  C5, the failing input. With \<^verbatim>\<open>SIMULATE_DELAY_SECS=5\<close>, a valid request whose task is
  cancelled while the handler awaits the simulated delay leaves the handler with
  \<^verbatim>\<open>CancelledError\<close>: the semaphore had two free slots and has one afterwards, and
  \<^verbatim>\<open>queue_metrics["active"]\<close> stays at 1.
\<close>

theorem slot_not_released_when_delay_is_cancelled:
  "fst (predict (ex_api_env\<lparr>simulate_delay_secs := 5, sleep_outcome := Some CancelledError\<rparr>)
          (Some ex_request) None
          (ex_api_state (Some (ex_init\<lparr>current_model := Some ex_sequence_predictor,
                                       model_class := ''pytorch''\<rparr>))))
     = Failed (Raised CancelledError)
   \<and> sem_value (ex_api_state (Some (ex_init\<lparr>current_model := Some ex_sequence_predictor,
                                       model_class := ''pytorch''\<rparr>))) = 2
   \<and> sem_value (snd (predict
          (ex_api_env\<lparr>simulate_delay_secs := 5, sleep_outcome := Some CancelledError\<rparr>)
          (Some ex_request) None
          (ex_api_state (Some (ex_init\<lparr>current_model := Some ex_sequence_predictor,
                                       model_class := ''pytorch''\<rparr>))))) = 1
   \<and> qm_active (snd (predict
          (ex_api_env\<lparr>simulate_delay_secs := 5, sleep_outcome := Some CancelledError\<rparr>)
          (Some ex_request) None
          (ex_api_state (Some (ex_init\<lparr>current_model := Some ex_sequence_predictor,
                                       model_class := ''pytorch''\<rparr>))))) = 1"
proof -
  let ?av = "ex_api_env\<lparr>simulate_delay_secs := 5, sleep_outcome := Some CancelledError\<rparr>"
  let ?s = "ex_init\<lparr>current_model := Some ex_sequence_predictor, model_class := ''pytorch''\<rparr>"
  let ?d = "time_to_feature (time_encoding ex_env) ex_request_df"
  let ?st = "(ex_api_state (Some ?s))\<lparr>qm_prep_samples := 1\<rparr>"
  have r: "resolve_input ?av (Some ex_request) (ex_api_state (Some ?s)) = Inr ?d"
    by (rule ex_request_resolved) (simp_all add: ex_init_def)
  have c: "cached_response ?av (Some ex_request) None (ex_api_state (Some ?s)) = None"
    by (simp add: cached_response_def ex_api_env_def)
  have f: "\<not> force_ok ?av" by (simp add: ex_api_env_def)
  have "0 < sem_value ?st" "service ?st = Some ?s"
    "simulate_delay_if_enabled ?av = Some CancelledError"
    by (simp_all add: ex_api_state_def simulate_delay_if_enabled_def)
  from cancelled_in_delay[OF this, where d = ?d and n = 3] r c f show ?thesis
    by (simp add: predict_def ex_request_def ex_api_state_def after_acquire_def)
qed

section \<open>Row counts and the predictor history\<close>

subsection \<open>Operations on tables keep the rows\<close>

lemma n_rows_set_cell: "n_rows (set_cell k c v d) = n_rows d"
  by (simp add: set_cell_def n_rows_def split: option.splits)

lemma n_rows_set_cells: "n_rows (set_cells k cvs d) = n_rows d"
  by (induction cvs arbitrary: d) (auto simp: n_rows_set_cell)

lemma n_rows_set_column: "n_rows (set_column d c g) = n_rows d"
  by (simp add: set_column_def n_rows_def split: option.splits)

lemma n_rows_set_feature_columns: "n_rows (set_feature_columns enc k cs d) = n_rows d"
  by (induction cs arbitrary: k d) (auto simp: n_rows_set_column)

lemma n_rows_time_to_feature: "n_rows (time_to_feature enc d) = n_rows d"
  by (simp add: time_to_feature_def n_rows_set_feature_columns)

lemma n_rows_empty_frame: "n_rows (empty_frame idx cols) = length idx"
  by (simp add: empty_frame_def n_rows_def)

lemma n_rows_drop_columns: "drop_columns cs d = Inr d' \<Longrightarrow> n_rows d' = n_rows d"
  by (auto simp: drop_columns_def n_rows_def Let_def split: list.splits)

lemma n_rows_frame_of_values: "frame_of_values vs idx cols = Inr t \<Longrightarrow> n_rows t = length idx"
  by (auto simp: frame_of_values_def n_rows_def split: if_splits)

lemma length_f_index: "length (f_index d) = n_rows d"
  by (simp add: f_index_def n_rows_def)

lemma length_date_range: "date_range start H delta = Inr idx \<Longrightarrow> int (length idx) = H"
  by (auto simp: date_range_def split: if_splits)

subsection \<open>The columns after \<^verbatim>\<open>time_to_feature\<close>\<close>

lemma col_pos_None: "col_pos cols c = None \<longleftrightarrow> c \<notin> set cols"
  by (induction cols) auto

lemma columns_set_column: "set (f_columns (set_column d c g)) = insert c (set (f_columns d))"
proof (cases "col_pos (f_columns d) c")
  case None
  then show ?thesis by (simp add: set_column_def)
next
  case (Some j)
  then have "c \<in> set (f_columns d)"
    using col_pos_None[of "f_columns d" c] by auto
  with Some show ?thesis by (auto simp: set_column_def)
qed

lemma columns_set_feature_columns:
  "set (f_columns (set_feature_columns enc k cs d)) = set cs \<union> set (f_columns d)"
  by (induction cs arbitrary: k d) (auto simp: columns_set_column)

lemma time_features_present:
  "filter (\<lambda>c. c \<notin> set (f_columns (time_to_feature enc d))) TIME_FEATURES = []"
  by (simp add: time_to_feature_def columns_set_feature_columns filter_empty_conv)

lemma select_time_features:
  "\<exists>x. select_columns TIME_FEATURES (time_to_feature enc d) = Inr x \<and> n_rows x = n_rows d"
  by (simp add: select_columns_def time_features_present n_rows_def
        n_rows_time_to_feature[unfolded n_rows_def])

subsection \<open>The sequence branch\<close>

lemma n_rows_write_row: "n_rows (fst (write_row c k p dfp s)) = n_rows dfp"
  by (simp add: write_row_def n_rows_set_cells n_rows_set_cell)

lemma block_steps_rows:
  "block_steps c step mp steps cur dfp s = (Inr (cur', dfp'), s') \<Longrightarrow> n_rows dfp' = n_rows dfp"
proof (induction steps arbitrary: cur dfp s)
  case Nil
  then show ?case by simp
next
  case (Cons i rest)
  show ?case
  proof (cases "step + int i \<ge> lc_H c")
    case True
    with Cons.prems show ?thesis by simp
  next
    case False
    note notdone = this
    show ?thesis
    proof (cases "pred_step mp i")
      case (Inl e)
      with Cons.prems notdone show ?thesis by simp
    next
      case (Inr p)
      let ?w = "write_row c (nat (step + int i)) p dfp s"
      show ?thesis
      proof (cases "lc_sample_idx c + (step + int i) + 1 < int (length (lc_X c))")
        case True
        show ?thesis
        proof (cases "py_get (lc_X c) (lc_sample_idx c + (step + int i) + 1)")
          case (Inl e)
          with Cons.prems notdone Inr True show ?thesis by simp
        next
          case w: (Inr w)
          with Cons.prems notdone Inr True
          have "block_steps c step mp rest w (fst ?w) (snd ?w) = (Inr (cur', dfp'), s')" by simp
          from Cons.IH[OF this] show ?thesis by (simp add: n_rows_write_row)
        qed
      next
        case False
        note recursive = this
        show ?thesis
        proof (cases "(step + int i) + 1 - lc_available c < int (n_rows (fst ?w))")
          case True
          show ?thesis
          proof (cases "extend_sequence (lc_feature_dim c) p cur")
            case (Inl e)
            with Cons.prems notdone Inr recursive True show ?thesis by simp
          next
            case ext: (Inr r)
            obtain cur2 pad where r: "r = (cur2, pad)" by (cases r)
            from Cons.prems notdone Inr recursive True ext r
            have "\<exists>s2. block_steps c step mp rest cur2 (fst ?w) s2 = (Inr (cur', dfp'), s')"
              by (cases pad) auto
            then obtain s2 where "block_steps c step mp rest cur2 (fst ?w) s2 = (Inr (cur', dfp'), s')" ..
            from Cons.IH[OF this] show ?thesis by (simp add: n_rows_write_row)
          qed
        next
          case False
          with Cons.prems notdone Inr recursive show ?thesis
            by (auto simp: n_rows_write_row)
        qed
      qed
    qed
  qed
qed

lemma forecast_loop_rows:
  "forecast_loop c steps cur dfp s = (Inr (cur', dfp'), s') \<Longrightarrow> n_rows dfp' = n_rows dfp"
proof (induction steps arbitrary: cur dfp s)
  case Nil
  then show ?case by simp
next
  case (Cons step steps)
  obtain r1 s1 where p: "predict_with_fallback (Arr3 [cur]) s = (r1, s1)" by fastforce
  show ?case
  proof (cases r1)
    case (Inl e)
    with Cons.prems p show ?thesis by simp
  next
    case (Inr mp)
    obtain r2 s2 where b: "block_steps c (int step) mp
        [0 ..< nat (min (lc_out_len c) (lc_H c - int step))] cur dfp s1 = (r2, s2)" by fastforce
    show ?thesis
    proof (cases r2)
      case (Inl e)
      with Cons.prems p Inr b show ?thesis by simp
    next
      case r2: (Inr cd)
      obtain cur2 dfp2 where cd: "cd = (cur2, dfp2)" by (cases cd)
      from Cons.prems p Inr b r2 cd
      have "forecast_loop c steps cur2 dfp2 s2 = (Inr (cur', dfp'), s')" by simp
      from Cons.IH[OF this] block_steps_rows[OF b[unfolded r2 cd]] show ?thesis by simp
    qed
  qed
qed

lemma inverse_scale_guarded_rows:
  "inverse_scale_guarded ev dfp s = (Inr t, s') \<Longrightarrow> n_rows t = n_rows dfp"
  by (auto simp: inverse_scale_guarded_def length_f_index
        dest!: n_rows_frame_of_values split: option.splits sum.splits if_splits)

lemma perform_pytorch_inference_rows:
  assumes "perform_pytorch_inference ev df_eval dfp H s = (Inr t, s')"
  shows "n_rows t = n_rows dfp"
proof -
  let ?target = "if ''value'' \<in> set (f_columns df_eval) then ''value'' else ''down''"
  let ?dfp0 = "if ?target \<notin> set (f_columns dfp) then set_column dfp ?target (\<lambda>t. None) else dfp"
  have r0: "n_rows ?dfp0 = n_rows dfp" by (simp add: n_rows_set_column)
  from assms obtain X cur0 where X: "window_data ev df_eval TIME_FEATURES (input_seq_len s) (output_seq_len s) = Inr X"
    and c0: "py_get (w_data X) (SAMPLE_IDX ev) = Inr cur0"
    by (auto simp: perform_pytorch_inference_def Let_def split: sum.splits)
  let ?c = "\<lparr>lc_H = H, lc_sample_idx = SAMPLE_IDX ev, lc_X = w_data X,
             lc_feature_dim = w_feature_dim X,
             lc_FEATURES = filter (\<lambda>c. c \<notin> set TIME_FEATURES) (f_columns df_eval),
             lc_target_col = ?target,
             lc_available = min (int (length (w_data X)) - SAMPLE_IDX ev) H,
             lc_out_len = output_seq_len s\<rparr>"
  obtain r1 s1 where l: "forecast_loop ?c [0 ..< nat H] cur0 ?dfp0 s = (r1, s1)" by fastforce
  from assms X c0 l obtain cur1 dfp1 dfp2 where r1: "r1 = Inr (cur1, dfp1)"
    and d: "drop_columns TIME_FEATURES dfp1 = Inr dfp2"
    and i: "inverse_scale_guarded ev dfp2 s1 = (Inr t, s')"
    by (auto simp: perform_pytorch_inference_def Let_def split: sum.splits)
  from forecast_loop_rows[OF l[unfolded r1]] n_rows_drop_columns[OF d]
    inverse_scale_guarded_rows[OF i] r0
  show ?thesis by simp
qed

subsection \<open>The double quotient of small counts\<close>

text \<open>Below \<open>2\<^sup>5\<^sup>3\<close> nanoseconds (about 104 days) a count is its own double, and the double
  quotient of two such counts has the ceiling of the exact quotient.\<close>

lemma pow2_power_int: "pow2 e = power_int 2 e"
  by (simp add: pow2_def power_int_def field_simps)

lemma pow2_add: "pow2 (x + y) = pow2 x * pow2 y"
  by (simp add: pow2_power_int power_int_add)

lemma pow2_pos: "0 < pow2 e"
  by (simp add: pow2_def)

lemma pow2_nat: "0 \<le> e \<Longrightarrow> pow2 e = 2 ^ nat e"
  by (simp add: pow2_def)

lemma pow2_mono: "x \<le> y \<Longrightarrow> pow2 x \<le> pow2 y"
  by (simp add: pow2_power_int power_int_increasing)

lemma binary_exponent_le:
  assumes "0 < a" and "0 < b"
  shows "pow2 (binary_exponent a b) * of_int b \<le> of_int a"
proof (cases "pow2 (bitlen a - bitlen b) * of_int b \<le> (of_int a :: rat)")
  case True
  then show ?thesis by (simp add: binary_exponent_def Let_def)
next
  case False
  from bitlen_bounds[OF assms(1)] have la: "2 ^ nat (bitlen a - 1) \<le> a" by simp
  from bitlen_bounds[OF assms(2)] have lb: "b < 2 ^ nat (bitlen b)" by simp
  have bb: "0 \<le> bitlen b" by (rule bitlen_nonneg)
  have ba: "0 \<le> bitlen a - 1" using assms(1) by (simp add: bitlen_def floorlog_def)
  have lb': "(of_int b :: rat) \<le> 2 ^ nat (bitlen b)"
  proof -
    from lb have "(of_int b :: rat) < of_int (2 ^ nat (bitlen b))" by (simp only: of_int_less_iff)
    then show ?thesis by simp
  qed
  have la': "(2 :: rat) ^ nat (bitlen a - 1) \<le> of_int a"
  proof -
    from la have "(of_int (2 ^ nat (bitlen a - 1)) :: rat) \<le> of_int a" by (simp only: of_int_le_iff)
    then show ?thesis by simp
  qed
  have "pow2 (bitlen a - bitlen b - 1) * of_int b
          \<le> pow2 (bitlen a - bitlen b - 1) * 2 ^ nat (bitlen b)"
    using lb' pow2_pos[of "bitlen a - bitlen b - 1"] by (simp add: mult_left_mono)
  also have "\<dots> = pow2 (bitlen a - bitlen b - 1) * pow2 (bitlen b)"
    using pow2_nat[OF bb] by simp
  also have "\<dots> = pow2 (bitlen a - 1)"
    using pow2_add[of "bitlen a - bitlen b - 1" "bitlen b"] by simp
  also have "\<dots> = 2 ^ nat (bitlen a - 1)" using pow2_nat[OF ba] by simp
  also have "\<dots> \<le> of_int a" by (rule la')
  finally show ?thesis using False by (simp add: binary_exponent_def Let_def)
qed

lemma round_half_even_near:
  assumes "0 < den"
  shows "2 * \<bar>round_half_even num den * den - num\<bar> \<le> den"
proof -
  define q where "q = num div den"
  define r where "r = num mod den"
  have num: "num = q * den + r" by (simp add: q_def r_def)
  have r: "0 \<le> r" "r < den" using assms by (simp_all add: r_def)
  have "round_half_even num den = q \<and> 2 * r \<le> den
        \<or> round_half_even num den = q + 1 \<and> den \<le> 2 * r"
    by (auto simp: round_half_even_def Let_def q_def r_def)
  then show ?thesis
  proof
    assume "round_half_even num den = q \<and> 2 * r \<le> den"
    with num r show ?thesis by (simp add: algebra_simps)
  next
    assume "round_half_even num den = q + 1 \<and> den \<le> 2 * r"
    with num r show ?thesis by (simp add: algebra_simps)
  qed
qed

lemma round_ratio_form:
  fixes n d :: int
  assumes n0: "n \<noteq> 0" and small: "\<bar>n\<bar> < 2 ^ 53" and d0: "d \<noteq> 0"
  shows "\<exists>s M. 0 < s \<and> round_ratio n d = of_int (sgn n * sgn d * M) / of_int s
           \<and> 2 * \<bar>M * \<bar>d\<bar> - \<bar>n\<bar> * s\<bar> \<le> \<bar>d\<bar> \<and> \<bar>d\<bar> < 2 * s"
proof -
  define a where "a = \<bar>n\<bar>"
  define b where "b = \<bar>d\<bar>"
  define e where "e = binary_exponent a b"
  have a: "0 < a" and b: "0 < b" using n0 d0 by (simp_all add: a_def b_def)
  have le: "pow2 e * of_int b \<le> of_int a"
    unfolding e_def by (rule binary_exponent_le[OF a b])
  have a53: "(of_int a :: rat) < 2 ^ 53"
  proof -
    from small have "(of_int a :: rat) < of_int (2 ^ 53)"
      unfolding a_def by (simp only: of_int_less_iff)
    then show ?thesis by simp
  qed
  have b1: "(1 :: rat) \<le> of_int b" using b by simp
  have e52: "e \<le> 52"
  proof (rule ccontr)
    assume "\<not> e \<le> 52"
    then have "53 \<le> e" by simp
    then have "pow2 53 \<le> pow2 e" by (rule pow2_mono)
    also have "\<dots> \<le> pow2 e * of_int b"
      using b1 pow2_pos[of e] by (simp add: mult_le_cancel_left1)
    also have "\<dots> \<le> of_int a" by (rule le)
    finally show False using a53 by (simp add: pow2_def)
  qed
  define s :: int where "s = 2 ^ nat (52 - e)"
  have s: "0 < s" by (simp add: s_def)
  have s_rat: "(of_int s :: rat) = pow2 (52 - e)"
    using e52 by (simp add: s_def pow2_def)
  have ps: "pow2 e * of_int s = 2 ^ 52"
    using pow2_add[of e "52 - e"] by (simp add: s_rat pow2_def)
  have pinv: "pow2 (e - 52) = 1 / of_int s"
  proof -
    have "pow2 (e - 52) * of_int s = 1"
      using pow2_add[of "e - 52" "52 - e"] by (simp add: s_rat pow2_def)
    with s show ?thesis by (simp add: field_simps)
  qed
  define M where "M = round_half_even (a * s) b"
  have mant: "(if 52 \<le> e then round_half_even a (b * 2 ^ nat (e - 52))
               else round_half_even (a * 2 ^ nat (52 - e)) b) = M"
  proof (cases "52 \<le> e")
    case True
    with e52 have "e = 52" by simp
    then show ?thesis by (simp add: M_def s_def)
  next
    case False
    then show ?thesis by (simp add: M_def s_def)
  qed
  have rr: "round_ratio n d = of_int (sgn n * sgn d * M) / of_int s"
  proof -
    have "round_ratio n d
            = of_int (sgn n * sgn d
                * (if 52 \<le> e then round_half_even a (b * 2 ^ nat (e - 52))
                   else round_half_even (a * 2 ^ nat (52 - e)) b)) * pow2 (e - 52)"
      using n0 by (simp add: round_ratio_def Let_def a_def b_def e_def)
    then have "round_ratio n d = of_int (sgn n * sgn d * M) * pow2 (e - 52)"
      by (simp only: mant)
    then show ?thesis by (simp add: pinv)
  qed
  have near: "2 * \<bar>M * b - a * s\<bar> \<le> b"
    unfolding M_def by (rule round_half_even_near[OF b])
  have "pow2 e * of_int s * of_int b \<le> of_int a * (of_int s :: rat)"
    using le s by (simp add: mult.commute mult.left_commute mult_left_mono)
  then have "2 ^ 52 * of_int b \<le> of_int a * (of_int s :: rat)" by (simp add: ps)
  also have "\<dots> < 2 ^ 53 * of_int s" using a53 s by (simp add: mult_strict_right_mono)
  finally have "(of_int b :: rat) < 2 * of_int s" by simp
  then have "(of_int b :: rat) < of_int (2 * s)" by simp
  then have bs: "b < 2 * s" by (simp only: of_int_less_iff)
  from s rr near bs show ?thesis unfolding a_def b_def by blast
qed

lemma between_ceiling:
  fixes k p q :: int
  assumes q: "0 < q" and lo: "k * q < p" and hi: "p < (k + 1) * q"
  shows "\<lceil>(of_int p :: rat) / of_int q\<rceil> = k + 1"
    and "\<lceil>- ((of_int p :: rat) / of_int q)\<rceil> = - k"
proof -
  from lo have "(of_int (k * q) :: rat) < of_int p" by (simp only: of_int_less_iff)
  with q have l: "(of_int k :: rat) < of_int p / of_int q"
    by (simp add: pos_less_divide_eq)
  from hi have "(of_int p :: rat) < of_int ((k + 1) * q)" by (simp only: of_int_less_iff)
  with q have h: "(of_int p :: rat) / of_int q < of_int k + 1"
    by (simp add: pos_divide_less_eq)
  from l h show "\<lceil>(of_int p :: rat) / of_int q\<rceil> = k + 1"
    by (intro ceiling_unique) simp_all
  from l h show "\<lceil>- ((of_int p :: rat) / of_int q)\<rceil> = - k"
    by (intro ceiling_unique) simp_all
qed

lemma sign_quotient:
  fixes n d :: int
  assumes "n \<noteq> 0" and "d \<noteq> 0"
  shows "(of_int n :: rat) / of_int d
           = of_int (sgn n * sgn d) * (of_int \<bar>n\<bar> / of_int \<bar>d\<bar>)"
    and "sgn n * sgn d = 1 \<or> sgn n * sgn d = - 1"
  using assms by (cases "0 < n"; cases "0 < d"; simp)+

lemma round_ratio_ceiling:
  fixes n d :: int
  assumes small: "\<bar>n\<bar> < 2 ^ 53" and d0: "d \<noteq> 0"
  shows "\<lceil>round_ratio n d\<rceil> = \<lceil>(of_int n :: rat) / of_int d\<rceil>"
    and "\<bar>d\<bar> dvd \<bar>n\<bar> \<Longrightarrow> round_ratio n d = of_int n / of_int d"
proof -
  have both: "\<lceil>round_ratio n d\<rceil> = \<lceil>(of_int n :: rat) / of_int d\<rceil>
              \<and> (\<bar>d\<bar> dvd \<bar>n\<bar> \<longrightarrow> round_ratio n d = of_int n / of_int d)"
  proof (cases "n = 0")
    case True
    then show ?thesis by (simp add: round_ratio_def)
  next
    case n0: False
    from round_ratio_form[OF n0 small d0] obtain s M where
      s: "0 < s" and rr: "round_ratio n d = of_int (sgn n * sgn d * M) / of_int s"
      and near: "2 * \<bar>M * \<bar>d\<bar> - \<bar>n\<bar> * s\<bar> \<le> \<bar>d\<bar>" and bs: "\<bar>d\<bar> < 2 * s"
      by blast
    define a where "a = \<bar>n\<bar>"
    define b where "b = \<bar>d\<bar>"
    define k where "k = a div b"
    define r where "r = a mod b"
    have b: "0 < b" using d0 by (simp add: b_def)
    have a: "a = k * b + r" by (simp add: k_def r_def)
    have r: "0 \<le> r" "r < b" using b by (simp_all add: r_def)
    note q = sign_quotient[OF n0 d0, folded a_def b_def]
    have rr': "round_ratio n d = of_int (sgn n * sgn d) * (of_int M / of_int s)"
      by (simp add: rr)
    have near': "2 * \<bar>M * b - a * s\<bar> \<le> b" using near by (simp add: a_def b_def)
    have bs': "b < 2 * s" using bs by (simp add: b_def)
    show ?thesis
    proof (cases "r = 0")
      case True
      with a have akb: "a = k * b" by simp
      have "M * b - a * s = (M - k * s) * b" by (simp add: akb algebra_simps)
      with near' have "2 * (\<bar>M - k * s\<bar> * b) \<le> b" by (simp add: abs_mult b less_imp_le)
      then have "\<bar>M - k * s\<bar> * b * 2 \<le> b * 1" by (simp add: mult.commute)
      have "\<bar>M - k * s\<bar> < 1"
      proof (rule ccontr)
        assume "\<not> \<bar>M - k * s\<bar> < 1"
        then have "1 \<le> \<bar>M - k * s\<bar>" by simp
        then have "1 * b \<le> \<bar>M - k * s\<bar> * b" using b by (intro mult_right_mono) simp_all
        with \<open>2 * (\<bar>M - k * s\<bar> * b) \<le> b\<close> b show False by simp
      qed
      then have M: "M = k * s" by simp
      have x: "(of_int M :: rat) / of_int s = of_int k" using s by (simp add: M)
      have y: "(of_int a :: rat) / of_int b = of_int k" using b by (simp add: akb)
      have "round_ratio n d = of_int n / of_int d" by (simp add: rr' q(1) x y)
      then show ?thesis by simp
    next
      case False
      with r have r1: "1 \<le> r" by simp
      have nd: "\<not> b dvd a" using False by (simp add: r_def dvd_eq_mod_eq_0)
      have as: "a * s = k * b * s + r * s" by (simp add: a algebra_simps)
      have rs_lo: "s \<le> r * s" using r1 s by (simp add: mult_le_cancel_right1)
      have "r \<le> b - 1" using r by simp
      then have "r * s \<le> (b - 1) * s" using s by (intro mult_right_mono) simp_all
      then have rs_hi: "r * s \<le> b * s - s" by (simp add: algebra_simps)
      have lo: "k * s < M"
      proof (rule ccontr)
        assume "\<not> k * s < M"
        then have "M \<le> k * s" by simp
        then have "M * b \<le> k * s * b" using b by (intro mult_right_mono) simp_all
        then have "M * b - a * s \<le> - (r * s)" by (simp add: as algebra_simps)
        with rs_lo have "M * b - a * s \<le> - s" by simp
        with near' bs' show False by (simp add: abs_if split: if_splits)
      qed
      have hi: "M < (k + 1) * s"
      proof (rule ccontr)
        assume "\<not> M < (k + 1) * s"
        then have "(k + 1) * s \<le> M" by simp
        then have "(k + 1) * s * b \<le> M * b" using b by (intro mult_right_mono) simp_all
        then have "b * s - r * s \<le> M * b - a * s" by (simp add: as algebra_simps)
        with rs_hi have "s \<le> M * b - a * s" by simp
        with near' bs' show False by (simp add: abs_if split: if_splits)
      qed
      have lo': "k * b < a" using a r1 by simp
      have hi': "a < (k + 1) * b" using a r by (simp add: algebra_simps)
      note x = between_ceiling[OF s lo hi]
      note y = between_ceiling[OF b lo' hi']
      from q(2) have "\<lceil>round_ratio n d\<rceil> = \<lceil>(of_int n :: rat) / of_int d\<rceil>"
      proof
        assume "sgn n * sgn d = 1"
        then show ?thesis by (simp add: rr' q(1) x y)
      next
        assume "sgn n * sgn d = - 1"
        then show ?thesis by (simp add: rr' q(1) x y)
      qed
      with nd show ?thesis by (simp add: a_def b_def)
    qed
  qed
  from both show "\<lceil>round_ratio n d\<rceil> = \<lceil>(of_int n :: rat) / of_int d\<rceil>" by simp
  from both show "\<bar>d\<bar> dvd \<bar>n\<bar> \<Longrightarrow> round_ratio n d = of_int n / of_int d" by simp
qed

lemma double_of_small_int:
  assumes "\<bar>n\<bar> < 2 ^ 53"
  shows "double_of_int n = n"
  using round_ratio_ceiling(2)[OF assms, of 1] by (simp add: double_of_int_def)

lemma resampled_length_small:
  assumes "downsampling \<noteq> 0" and "\<bar>H * frequency\<bar> < 2 ^ 53" and "\<bar>downsampling\<bar> < 2 ^ 53"
  shows "resampled_length H frequency downsampling
           = Inr \<lceil>(of_int (H * frequency) :: rat) / of_int downsampling\<rceil>"
proof -
  have "\<not> (H * frequency \<le> - (2 ^ 63) \<or> 2 ^ 63 \<le> H * frequency)"
    using assms(2) by (simp add: abs_if split: if_splits)
  then show ?thesis
    using assms(1) round_ratio_ceiling(1)[OF assms(2,1)]
    by (simp add: resampled_length_def Let_def double_div_def
          double_of_small_int[OF assms(2)] double_of_small_int[OF assms(3)])
qed

lemma resampled_length_nonzero:
  "resampled_length H frequency downsampling = Inr h \<Longrightarrow> downsampling \<noteq> 0"
  by (auto simp: resampled_length_def Let_def split: if_splits)

subsection \<open>The seasonal and the multi-horizon-stats branch\<close>

lemma inverse_scale_unguarded_rows:
  assumes "inverse_scale_unguarded v s = (Inr t, s')"
  shows "\<exists>out. v = VFrame out \<and> n_rows t = n_rows out \<and> predict_history s' = predict_history s"
proof (cases v)
  case (VFrame out)
  with assms show ?thesis
    by (auto simp: inverse_scale_unguarded_def emit_fields length_f_index
          dest!: n_rows_frame_of_values split: option.splits sum.splits)
qed (use assms in \<open>auto simp: inverse_scale_unguarded_def split: option.splits\<close>)

lemma perform_prophet_inference_rows:
  assumes "current_model s = Some m"
    and "perform_prophet_inference ev df_eval dfp H s = (Inr t, s')"
  shows "\<exists>out. m (predict_history s) (PFrame dfp) = Inr (VFrame out) \<and> n_rows t = n_rows out
           \<and> predict_history s' = predict_history s @ [PFrame dfp]"
proof (cases "m (predict_history s) (PFrame dfp)")
  case (Inl e)
  with assms show ?thesis
    by (simp add: perform_prophet_inference_def call_predict_Some)
next
  case (Inr v)
  with assms have "inverse_scale_unguarded v (s\<lparr>predict_history := predict_history s @ [PFrame dfp]\<rparr>)
                     = (Inr t, s')"
    by (simp add: perform_prophet_inference_def call_predict_Some)
  from inverse_scale_unguarded_rows[OF this] Inr show ?thesis by auto
qed

lemma perform_statsforecast_inference_rows:
  assumes "current_model s = Some m"
    and "perform_statsforecast_inference ev df_eval dfp H s = (Inr t, s')"
  shows "\<exists>inp out. stats_input_dict ev df_eval dfp H s = Inr inp
           \<and> m (predict_history s) (PDict inp) = Inr (VFrame out) \<and> n_rows t = n_rows out
           \<and> predict_history s' = predict_history s @ [PDict inp]"
proof (cases "stats_input_dict ev df_eval dfp H s")
  case (Inl e)
  with assms show ?thesis by (simp add: perform_statsforecast_inference_def)
next
  case inp: (Inr inp)
  show ?thesis
  proof (cases "m (predict_history s) (PDict inp)")
    case (Inl e)
    with assms inp show ?thesis
      by (simp add: perform_statsforecast_inference_def call_predict_Some)
  next
    case (Inr v)
    with assms inp
    have "inverse_scale_unguarded v (s\<lparr>predict_history := predict_history s @ [PDict inp]\<rparr>)
            = (Inr t, s')"
      by (simp add: perform_statsforecast_inference_def call_predict_Some)
    from inverse_scale_unguarded_rows[OF this] Inr inp show ?thesis by auto
  qed
qed

text \<open>With resampling configured the requested horizon is the rounded-up quotient as
  line 765 computes it, in double precision on the counts of nanoseconds. The quotient of
  12000000000000001 ns by 6000000000000000 ns is just above 2 and its double is 2.\<close>

lemma resampled_length_examples:
  "resampled_length 4 60 120 = Inr 2"
  "resampled_length 1 12000000000000001 6000000000000000 = Inr 2"
  "\<lceil>(12000000000000001 :: rat) / 6000000000000000\<rceil> = 3"
  "resampled_length 2 4611686018427387904 60 = Inl OverflowError"
  "resampled_length 4 60 0 = Inl ZeroDivisionError"
  by code_simp+

lemma stats_input_dict_resampled:
  assumes "stats_input_dict ev df_eval dfp H s = Inr inp"
    and "params s ''downsampling'' = Some ds" and "ds \<noteq> ''0''"
    and "params s ''frequency'' = Some fr" and "ds \<noteq> fr"
    and "parse_timedelta ev ds = Inr downsampling" and "parse_timedelta ev fr = Inr frequency"
  shows "resampled_length H frequency downsampling = Inr (si_h inp)"
  using assms
  by (auto simp: stats_input_dict_def stats_resample_def split: if_splits sum.splits)

subsection \<open>What saving a prediction leaves alone\<close>

lemma append_with_retries_fields:
  "predict_history (append_with_retries as line s) = predict_history s
   \<and> emitted_prediction_keys (append_with_retries as line s) = emitted_prediction_keys s
   \<and> current_run_id (append_with_retries as line s) = current_run_id s
   \<and> active_jobs (append_with_retries as line s) = active_jobs s"
  by (induction as arbitrary: s) (auto simp: Let_def emit_fields)

lemma save_and_publish_history:
  "predict_history (save_and_publish_predictions ev d s) = predict_history s"
  by (simp add: save_and_publish_predictions_def Let_def emit_fields append_with_retries_fields)

subsection \<open>\<^verbatim>\<open>perform_inference\<close> as a whole\<close>

lemma perform_inference_body_result:
  assumes "perform_inference_body ev d H s = (Inr (Some t), s')"
  shows "\<exists>idx s1 s2. run_model_branch ev d
             (time_to_feature (time_encoding ev) (empty_frame idx (f_columns d))) H s1 = (Inr t, s2)
           \<and> int (length idx) = H
           \<and> predict_history s1 = predict_history s \<and> current_model s1 = current_model s
           \<and> model_class s1 = model_class s \<and> params s1 = params s
           \<and> predict_history s' = predict_history s2"
proof -
  let ?total = "int (n_rows d)"
  let ?req = "SAMPLE_IDX ev + input_seq_len s"
  let ?s1 = "if ?req \<ge> ?total then emit (EvAdjustStartIndex ?req (?total - 1)) s else s"
  let ?pos = "if ?req \<ge> ?total then ?total - 1 else ?req"
  have s1: "predict_history ?s1 = predict_history s \<and> current_model ?s1 = current_model s
            \<and> model_class ?s1 = model_class s \<and> params ?s1 = params s"
    by (simp add: emit_def)
  from assms have pre: "\<not> (input_seq_len s > 0 \<and> ?total < input_seq_len s + output_seq_len s)"
    and nz: "?total \<noteq> 0"
    by (auto simp: perform_inference_body_def Let_def split: if_splits)
  from assms pre nz obtain delta start idx where
    "check_uniform ev d = Inr delta" "py_get (f_index d) ?pos = Inr start"
    and dr: "date_range start H delta = Inr idx"
    by (simp add: perform_inference_body_def Let_def split: sum.splits if_splits)
  with assms pre nz obtain s2 where
    b: "run_model_branch ev d (time_to_feature (time_encoding ev) (empty_frame idx (f_columns d)))
          H ?s1 = (Inr t, s2)"
    and s': "s' = emit (EvPredictInferenceEnd (n_rows t)) (save_and_publish_predictions ev t s2)"
    by (simp add: perform_inference_body_def Let_def split: sum.splits prod.splits if_splits)
  from s' have "predict_history s' = predict_history s2"
    by (simp add: emit_fields save_and_publish_history)
  with b length_date_range[OF dr] s1 show ?thesis by blast
qed

subsection \<open>Runs of the examples\<close>

lemma ex_pred_frame:
  "time_to_feature (time_encoding ex_env) (empty_frame [60, 120] [''value''])
   = \<lparr>f_columns = ''value'' # TIME_FEATURES,
      f_rows = [(60, [None, Some 0, Some 0, Some 0, Some 0, Some 0, Some 0]),
                (120, [None, Some 0, Some 0, Some 0, Some 0, Some 0, Some 0])]\<rparr>"
  by (simp add: time_to_feature_def TIME_FEATURES_def empty_frame_def set_column_def ex_env_def)

lemma ex_sequence_branch:
  "fst (perform_pytorch_inference ex_env ex_df
     \<lparr>f_columns = ''value'' # TIME_FEATURES,
      f_rows = [(60, [None, Some 0, Some 0, Some 0, Some 0, Some 0, Some 0]),
                (120, [None, Some 0, Some 0, Some 0, Some 0, Some 0, Some 0])]\<rparr>
     2 (mark_job_started ex_sequence_service))
   = Inr \<lparr>f_columns = [''value''], f_rows = [(60, [Some 5]), (120, [Some 5])]\<rparr>"
  by (simp add: perform_pytorch_inference_def ex_env_def ex_df_def ex_sequence_service_def
        ex_init_def mark_job_started_def
        predict_with_fallback_def call_predict_def ex_sequence_predictor_def
        pred_step_def write_row_def set_cell_def py_get_def extend_sequence_def n_rows_def
        drop_columns_def inverse_scale_guarded_def emit_def
        TIME_FEATURES_def Let_def upt_conv_Cons)


lemma ex_sequence_branch_broken_scaler:
  "fst (perform_pytorch_inference ex_env ex_df
     \<lparr>f_columns = ''value'' # TIME_FEATURES,
      f_rows = [(60, [None, Some 0, Some 0, Some 0, Some 0, Some 0, Some 0]),
                (120, [None, Some 0, Some 0, Some 0, Some 0, Some 0, Some 0])]\<rparr>
     2 (mark_job_started (ex_sequence_service\<lparr>current_scaler := Some ex_broken_scaler\<rparr>)))
   = Inr \<lparr>f_columns = [''value''], f_rows = [(60, [Some 5]), (120, [Some 5])]\<rparr>"
  by (simp add: perform_pytorch_inference_def ex_env_def ex_df_def ex_sequence_service_def
        ex_init_def mark_job_started_def ex_broken_scaler_def scaler_original_cols_def
        predict_with_fallback_def call_predict_def ex_sequence_predictor_def
        pred_step_def write_row_def set_cell_def py_get_def extend_sequence_def n_rows_def
        drop_columns_def inverse_scale_guarded_def emit_def
        TIME_FEATURES_def Let_def upt_conv_Cons)

subsection \<open>Running the request through \<^verbatim>\<open>perform_inference\<close>\<close>

lemma perform_inference_loaded:
  "current_model s \<noteq> None \<Longrightarrow>
   perform_inference ev (Some d) (Some H) s
     = (fst (perform_inference_body ev d H (mark_job_started s)),
        mark_job_finished (snd (perform_inference_body ev d H (mark_job_started s))))"
  by (auto simp: perform_inference_def)

lemma perform_inference_body_runs_branch:
  assumes "\<not> (0 < input_seq_len s \<and> int (n_rows d) < input_seq_len s + output_seq_len s)"
    and "SAMPLE_IDX ev + input_seq_len s < int (n_rows d)"
    and "check_uniform ev d = Inr delta"
    and "py_get (f_index d) (SAMPLE_IDX ev + input_seq_len s) = Inr start"
    and "date_range start H delta = Inr idx"
  shows "perform_inference_body ev d H s
         = (case run_model_branch ev d
                   (time_to_feature (time_encoding ev) (empty_frame idx (f_columns d))) H s of
              (Inl e, s2) \<Rightarrow> (Inl e, s2)
            | (Inr t, s2) \<Rightarrow>
                (Inr (Some t),
                 emit (EvPredictInferenceEnd (n_rows t)) (save_and_publish_predictions ev t s2)))"
proof -
  show ?thesis
  proof (cases "n_rows d = 0")
    case True
    with assms(2,4) show ?thesis by (simp add: py_get_def f_index_def n_rows_def)
  next
    case False
    with assms show ?thesis by (auto simp: perform_inference_body_def Let_def)
  qed
qed

lemma ex_df_facts:
  "n_rows ex_df = 3" "f_index ex_df = [0, 60, 120]" "f_columns ex_df = [''value'']"
  "check_uniform ex_env ex_df = Inr 60" "SAMPLE_IDX ex_env = 0" "INFERENCE_LENGTH ex_env = 1"
  by (simp_all add: ex_df_def n_rows_def f_index_def ex_env_def)

lemma ex_services:
  "current_model (mark_job_started ex_sequence_service) = Some ex_sequence_predictor"
  "current_model (mark_job_started ex_seasonal_service) = Some ex_seasonal_predictor"
  "current_model (mark_job_started (ex_stats_service ds)) = Some ex_stats_predictor"
  "model_class (mark_job_started ex_sequence_service) = ''pytorch''"
  "model_class (mark_job_started ex_seasonal_service) = ''prophet''"
  "model_class (mark_job_started (ex_stats_service ds)) = ''statsforecast''"
  "input_seq_len (mark_job_started ex_sequence_service) = 1"
  "output_seq_len (mark_job_started ex_sequence_service) = 1"
  "input_seq_len (mark_job_started ex_seasonal_service) = 0"
  "input_seq_len (mark_job_started (ex_stats_service ds)) = 0"
  "current_scaler (mark_job_started ex_seasonal_service) = None"
  "current_scaler (mark_job_started (ex_stats_service ds)) = None"
  "predict_history (mark_job_started ex_seasonal_service) = []"
  "predict_history (mark_job_started (ex_stats_service ds)) = []"
  "params (mark_job_started (ex_stats_service ds)) = [''downsampling'' \<mapsto> ds, ''frequency'' \<mapsto> ''60ns'']"
  by (simp_all add: ex_sequence_service_def ex_seasonal_service_def ex_stats_service_def
        ex_init_def mark_job_started_def)

lemma ex_sequence_run:
  "fst (perform_inference ex_env (Some ex_df) (Some 2) ex_sequence_service)
   = Inr (Some \<lparr>f_columns = [''value''], f_rows = [(60, [Some 5]), (120, [Some 5])]\<rparr>)"
proof -
  have m: "current_model ex_sequence_service \<noteq> None"
    by (simp add: ex_sequence_service_def)
  have b: "perform_inference_body ex_env ex_df 2 (mark_job_started ex_sequence_service)
           = (case run_model_branch ex_env ex_df
                   (time_to_feature (time_encoding ex_env) (empty_frame [60, 120] (f_columns ex_df)))
                   2 (mark_job_started ex_sequence_service) of
              (Inl e, s2) \<Rightarrow> (Inl e, s2)
            | (Inr t, s2) \<Rightarrow>
                (Inr (Some t),
                 emit (EvPredictInferenceEnd (n_rows t))
                   (save_and_publish_predictions ex_env t s2)))"
    by (rule perform_inference_body_runs_branch[where delta = 60 and start = 60])
       (simp_all add: ex_df_facts ex_services py_get_def date_range_def upt_conv_Cons)
  obtain r s2 where p: "perform_pytorch_inference ex_env ex_df
     \<lparr>f_columns = ''value'' # TIME_FEATURES,
      f_rows = [(60, [None, Some 0, Some 0, Some 0, Some 0, Some 0, Some 0]),
                (120, [None, Some 0, Some 0, Some 0, Some 0, Some 0, Some 0])]\<rparr>
     2 (mark_job_started ex_sequence_service) = (r, s2)" by fastforce
  with ex_sequence_branch
  have r: "r = Inr \<lparr>f_columns = [''value''], f_rows = [(60, [Some 5]), (120, [Some 5])]\<rparr>"
    by simp
  show ?thesis
    by (simp add: perform_inference_loaded[OF m] b run_model_branch_def ex_services
          ex_df_facts ex_pred_frame p r)
qed

lemma mark_job_fields:
  "predict_history (mark_job_started s) = predict_history s"
  "current_model (mark_job_started s) = current_model s"
  "model_class (mark_job_started s) = model_class s"
  "params (mark_job_started s) = params s"
  "predict_history (mark_job_finished s) = predict_history s"
  by (simp_all add: mark_job_started_def mark_job_finished_def)

text \<open>
  C2 as amended. When \<^verbatim>\<open>perform_inference\<close> returns a table for the horizon H (the requested
  length, or \<^verbatim>\<open>INFERENCE_LENGTH\<close> when none is given): in the sequence branch the table has
  exactly H rows; in the seasonal branch the predictor was called once, with a frame of H
  rows, and the table has as many rows as the frame it returned; in the
  multi-horizon-stats branch the predictor was called once and the table has as many
  rows as the frame it returned, and when resampling is configured the horizon it was
  asked for is the rounded-up quotient of H times the native period by the downsampling
  period as line 765 computes it: the two counts of nanoseconds divided in double
  precision. It is the rounded-up exact quotient when both counts are below \<open>2\<^sup>5\<^sup>3\<close>
  nanoseconds.
\<close>

theorem prediction_row_count:
  fixes ev :: env and df_eval :: "frame option" and n :: "int option" and s :: inferencer
  defines "H \<equiv> (case n of Some k \<Rightarrow> k | None \<Rightarrow> INFERENCE_LENGTH ev)"
  defines "s' \<equiv> snd (perform_inference ev df_eval n s)"
  assumes ok: "fst (perform_inference ev df_eval n s) = Inr (Some t)"
  shows "(model_class s = ''pytorch'' \<longrightarrow> int (n_rows t) = H)
       \<and> (model_class s = ''prophet'' \<longrightarrow>
            (\<exists>given out. predict_history s' = predict_history s @ [PFrame given]
               \<and> int (n_rows given) = H
               \<and> the (current_model s) (predict_history s) (PFrame given) = Inr (VFrame out)
               \<and> n_rows t = n_rows out))
       \<and> (model_class s = ''statsforecast'' \<longrightarrow>
            (\<exists>inp out. predict_history s' = predict_history s @ [PDict inp]
               \<and> the (current_model s) (predict_history s) (PDict inp) = Inr (VFrame out)
               \<and> n_rows t = n_rows out
               \<and> (\<forall>ds fr downsampling frequency.
                     params s ''downsampling'' = Some ds \<and> ds \<noteq> ''0''
                     \<and> params s ''frequency'' = Some fr \<and> ds \<noteq> fr
                     \<and> parse_timedelta ev ds = Inr downsampling
                     \<and> parse_timedelta ev fr = Inr frequency
                     \<longrightarrow> resampled_length H frequency downsampling = Inr (si_h inp)
                       \<and> (\<bar>H * frequency\<bar> < 2 ^ 53 \<and> \<bar>downsampling\<bar> < 2 ^ 53
                            \<longrightarrow> si_h inp = \<lceil>(of_int (H * frequency) :: rat)
                                                   / of_int downsampling\<rceil>))))"
proof -
  from ok obtain d where d: "(case df_eval of None \<Rightarrow> df s | Some d' \<Rightarrow> Some d') = Some d"
    by (cases "case df_eval of None \<Rightarrow> df s | Some d' \<Rightarrow> Some d'")
       (simp_all add: perform_inference_def)
  from ok d obtain m where m: "current_model s = Some m"
    by (cases "current_model s") (simp_all add: perform_inference_def)
  obtain r sb where body: "perform_inference_body ev d H (mark_job_started s) = (r, sb)"
    by fastforce
  from ok d m body have r: "r = Inr (Some t)" and s': "s' = mark_job_finished sb"
    by (simp_all add: perform_inference_def H_def s'_def Let_def)
  from perform_inference_body_result[OF body[unfolded r]] obtain idx s1 s2 where
    branch: "run_model_branch ev d
               (time_to_feature (time_encoding ev) (empty_frame idx (f_columns d))) H s1
             = (Inr t, s2)"
    and len: "int (length idx) = H"
    and h1: "predict_history s1 = predict_history s"
    and m1: "current_model s1 = Some m"
    and c1: "model_class s1 = model_class s"
    and p1: "params s1 = params s"
    and hs: "predict_history s' = predict_history s2"
    by (auto simp: mark_job_fields m s')
  let ?dfp = "time_to_feature (time_encoding ev) (empty_frame idx (f_columns d))"
  have rows: "int (n_rows ?dfp) = H"
    by (simp add: n_rows_time_to_feature n_rows_empty_frame len)
  have seq: "int (n_rows t) = H" if "model_class s = ''pytorch''"
    using that branch c1 rows perform_pytorch_inference_rows[of ev d ?dfp H s1 t s2]
    by (simp add: run_model_branch_def)
  have seasonal: "\<exists>given out. predict_history s' = predict_history s @ [PFrame given]
               \<and> int (n_rows given) = H
               \<and> the (current_model s) (predict_history s) (PFrame given) = Inr (VFrame out)
               \<and> n_rows t = n_rows out" if "model_class s = ''prophet''"
  proof -
    from that branch c1 have "perform_prophet_inference ev d ?dfp H s1 = (Inr t, s2)"
      by (simp add: run_model_branch_def)
    from perform_prophet_inference_rows[OF m1 this] h1 hs rows m show ?thesis by auto
  qed
  have stats: "\<exists>inp out. predict_history s' = predict_history s @ [PDict inp]
               \<and> the (current_model s) (predict_history s) (PDict inp) = Inr (VFrame out)
               \<and> n_rows t = n_rows out
               \<and> (\<forall>ds fr downsampling frequency.
                     params s ''downsampling'' = Some ds \<and> ds \<noteq> ''0''
                     \<and> params s ''frequency'' = Some fr \<and> ds \<noteq> fr
                     \<and> parse_timedelta ev ds = Inr downsampling
                     \<and> parse_timedelta ev fr = Inr frequency
                     \<longrightarrow> resampled_length H frequency downsampling = Inr (si_h inp)
                       \<and> (\<bar>H * frequency\<bar> < 2 ^ 53 \<and> \<bar>downsampling\<bar> < 2 ^ 53
                            \<longrightarrow> si_h inp = \<lceil>(of_int (H * frequency) :: rat)
                                                   / of_int downsampling\<rceil>))"
    if "model_class s = ''statsforecast''"
  proof -
    from that branch c1 have "perform_statsforecast_inference ev d ?dfp H s1 = (Inr t, s2)"
      by (simp add: run_model_branch_def)
    from perform_statsforecast_inference_rows[OF m1 this] obtain inp out where
      inp: "stats_input_dict ev d ?dfp H s1 = Inr inp"
      and out: "m (predict_history s1) (PDict inp) = Inr (VFrame out)" "n_rows t = n_rows out"
        "predict_history s2 = predict_history s1 @ [PDict inp]"
      by blast
    have "resampled_length H frequency downsampling = Inr (si_h inp)
          \<and> (\<bar>H * frequency\<bar> < 2 ^ 53 \<and> \<bar>downsampling\<bar> < 2 ^ 53
               \<longrightarrow> si_h inp = \<lceil>(of_int (H * frequency) :: rat) / of_int downsampling\<rceil>)"
      if "params s ''downsampling'' = Some ds" "ds \<noteq> ''0''" "params s ''frequency'' = Some fr"
        "ds \<noteq> fr" "parse_timedelta ev ds = Inr downsampling"
        "parse_timedelta ev fr = Inr frequency"
      for ds fr downsampling frequency
    proof -
      have h: "resampled_length H frequency downsampling = Inr (si_h inp)"
        using stats_input_dict_resampled[OF inp, of ds fr downsampling frequency] that p1 by simp
      from resampled_length_nonzero[OF h] resampled_length_small[of downsampling H frequency] h
      show ?thesis by auto
    qed
    with out h1 hs m show ?thesis by auto
  qed
  from seq seasonal stats show ?thesis by blast
qed


subsection \<open>Runs of the seasonal and the stats example\<close>

lemma ex_body_from_first_row:
  assumes "0 \<le> H" and "input_seq_len s = 0"
  shows "perform_inference_body ex_env ex_df H s
         = (case run_model_branch ex_env ex_df
                   (time_to_feature (time_encoding ex_env)
                      (empty_frame (map (\<lambda>k. int k * 60) [0 ..< nat H]) [''value'']))
                   H s of
              (Inl e, s2) \<Rightarrow> (Inl e, s2)
            | (Inr t, s2) \<Rightarrow>
                (Inr (Some t),
                 emit (EvPredictInferenceEnd (n_rows t))
                   (save_and_publish_predictions ex_env t s2)))"
  using assms
  by (subst perform_inference_body_runs_branch[where delta = 60 and start = 0
        and idx = "map (\<lambda>k. int k * 60) [0 ..< nat H]"])
     (simp_all add: ex_df_facts py_get_def date_range_def)

lemma ex_seasonal_run:
  assumes "0 \<le> H"
  shows "result_rows (fst (perform_inference ex_env (Some ex_df) (Some H) ex_seasonal_service))
         = Inr (Some (nat H))"
proof -
  have m: "current_model ex_seasonal_service \<noteq> None"
    by (simp add: ex_seasonal_service_def)
  show ?thesis
    by (simp add: perform_inference_loaded[OF m] ex_body_from_first_row[OF assms] ex_services
          run_model_branch_def perform_prophet_inference_def
          call_predict_Some[OF ex_services(2)] ex_seasonal_predictor_def
          inverse_scale_unguarded_def emit_fields n_rows_time_to_feature n_rows_empty_frame)
qed

lemma ex_stats_dict_plain:
  assumes "params s ''downsampling'' = Some ''0''"
  shows "\<exists>x. stats_input_dict ex_env d (time_to_feature enc d0) H s = Inr \<lparr>si_h = 1, si_X = x\<rparr>"
  using assms select_time_features[of enc d0]
  by (auto simp: stats_input_dict_def stats_no_resample_def ex_df_facts)

lemma ex_stats_dict_resampled:
  assumes "params s = [''downsampling'' \<mapsto> ''120ns'', ''frequency'' \<mapsto> ''60ns'']"
  shows "\<exists>x. stats_input_dict ex_env ex_df dfp 4 s = Inr \<lparr>si_h = 2, si_X = x\<rparr>"
proof -
  have p: "parse_timedelta ex_env ''120ns'' = Inr 120" "parse_timedelta ex_env ''60ns'' = Inr 60"
    "time_encoding ex_env = (\<lambda>t. [0, 0, 0, 0, 0, 0])"
    by (simp_all add: ex_env_def)
  note c = resampled_length_examples(1)
  have dr: "date_range 0 2 60 = Inr [0, 60]" by (simp add: date_range_def upt_conv_Cons)
  from select_time_features[of "\<lambda>t. [0, 0, 0, 0, 0, 0]" "empty_frame [0, 60] [''value'']"]
  obtain x where "select_columns TIME_FEATURES
      (time_to_feature (\<lambda>t. [0, 0, 0, 0, 0, 0]) (empty_frame [0, 60] [''value''])) = Inr x"
    by blast
  then show ?thesis
    using assms
    by (simp add: stats_input_dict_def stats_resample_def p c dr ex_df_facts py_get_def)
qed

lemma ex_stats_branch:
  assumes "stats_input_dict ex_env d dfp H s = Inr inp"
    and "current_model s = Some ex_stats_predictor" and "current_scaler s = None"
  shows "\<exists>out s2. perform_statsforecast_inference ex_env d dfp H s = (Inr out, s2)
           \<and> n_rows out = nat (si_h inp)
           \<and> predict_history s2 = predict_history s @ [PDict inp]"
  using assms
  by (simp add: perform_statsforecast_inference_def call_predict_Some ex_stats_predictor_def
        inverse_scale_unguarded_def emit_fields n_rows_def)

lemma ex_stats_run:
  assumes "0 \<le> H"
    and "\<exists>x. stats_input_dict ex_env ex_df
            (time_to_feature (time_encoding ex_env)
               (empty_frame (map (\<lambda>k. int k * 60) [0 ..< nat H]) [''value'']))
            H (mark_job_started (ex_stats_service ds)) = Inr \<lparr>si_h = h, si_X = x\<rparr>"
  shows "result_rows (fst (perform_inference ex_env (Some ex_df) (Some H) (ex_stats_service ds)))
           = Inr (Some (nat h))
       \<and> requested_horizons
           (predict_history (snd (perform_inference ex_env (Some ex_df) (Some H)
              (ex_stats_service ds)))) = [h]"
proof -
  let ?dfp = "time_to_feature (time_encoding ex_env)
               (empty_frame (map (\<lambda>k. int k * 60) [0 ..< nat H]) [''value''])"
  let ?s = "mark_job_started (ex_stats_service ds)"
  have m: "current_model (ex_stats_service ds) \<noteq> None"
    by (simp add: ex_stats_service_def)
  from assms(2) obtain x where
    inp: "stats_input_dict ex_env ex_df ?dfp H ?s = Inr \<lparr>si_h = h, si_X = x\<rparr>" by blast
  from ex_stats_branch[OF inp ex_services(3) ex_services(12)] obtain out s2 where
    b: "perform_statsforecast_inference ex_env ex_df ?dfp H ?s = (Inr out, s2)"
    and rows: "n_rows out = nat h"
    and hist: "predict_history s2 = [PDict \<lparr>si_h = h, si_X = x\<rparr>]"
    by (auto simp: ex_services)
  show ?thesis
    by (simp add: perform_inference_loaded[OF m] ex_body_from_first_row[OF assms(1)] ex_services
          run_model_branch_def b rows hist mark_job_fields(5) emit_fields save_and_publish_history)
qed

subsection \<open>The inverse scaling of the three branches\<close>

text \<open>Without a scaler every branch returns the raw values.\<close>

lemma missing_scaler_returns_raw:
  assumes "current_scaler s = None"
  shows "inverse_scale_guarded ev dfp s = (Inr dfp, emit EvScalerNone s)"
    and "inverse_scale_unguarded (VFrame d) s = (Inr d, emit EvScalerNone s)"
  using assms by (simp_all add: inverse_scale_guarded_def inverse_scale_unguarded_def)

text \<open>In the sequence branch a scaler that raises is reported and the raw values are
  returned.\<close>

lemma guarded_scaler_failure_returns_raw:
  assumes "current_scaler s = Some sc" and "scaler_original_cols sc = []"
    and "inverse_transform sc dfp = Inl e" and "is_Exception e"
  shows "inverse_scale_guarded ev dfp s = (Inr dfp, emit (EvInverseScalingFailed e) s)"
  using assms by (simp add: inverse_scale_guarded_def)

text \<open>In the seasonal and the stats branch a scaler that raises ends the branch with its
  exception.\<close>

lemma unguarded_scaler_failure_raises:
  assumes "current_scaler s = Some sc" and "inverse_transform sc d = Inl e"
  shows "inverse_scale_unguarded (VFrame d) s = (Inl e, s)"
  using assms by (simp add: inverse_scale_unguarded_def)


text \<open>
  C2, the claim as it stands fails in the multi-horizon-stats branch. A model trained on
  data downsampled to 120 ns over a series with a row every 60 ns, asked for a horizon of
  4, is called with \<^verbatim>\<open>h = ceil(4 * 60ns / 120ns) = 2\<close>; a predictor that returns one row per
  requested step gives a table of 2 rows, which \<^verbatim>\<open>perform_inference\<close> returns.
\<close>

theorem resampled_stats_table_is_shorter:
  "result_rows (fst (perform_inference ex_env (Some ex_df) (Some 4) (ex_stats_service ''120ns'')))
     = Inr (Some 2)"
proof -
  have "\<exists>x. stats_input_dict ex_env ex_df
            (time_to_feature (time_encoding ex_env)
               (empty_frame (map (\<lambda>k. int k * 60) [0 ..< nat 4]) [''value'']))
            4 (mark_job_started (ex_stats_service ''120ns'')) = Inr \<lparr>si_h = 2, si_X = x\<rparr>"
    by (rule ex_stats_dict_resampled) (simp add: ex_services)
  from ex_stats_run[OF _ this] show ?thesis by simp
qed

theorem prediction_row_count_witness:
  "result_rows (fst (perform_inference ex_env (Some ex_df) (Some 2) ex_sequence_service))
     = Inr (Some 2)
   \<and> given_rows (predict_history
        (snd (perform_inference ex_env (Some ex_df) (Some 2) ex_seasonal_service))) = [2]
   \<and> requested_horizons (predict_history
        (snd (perform_inference ex_env (Some ex_df) (Some 4) (ex_stats_service ''120ns'')))) = [2]"
proof -
  from prediction_row_count[OF ex_sequence_run]
  have "int (n_rows \<lparr>f_columns = [''value''], f_rows = [(60, [Some 5]), (120, [Some 5])]\<rparr>) = 2"
    by (simp add: ex_sequence_service_def)
  with ex_sequence_run have seq: "result_rows
      (fst (perform_inference ex_env (Some ex_df) (Some 2) ex_sequence_service)) = Inr (Some 2)"
    by simp
  from ex_seasonal_run[of 2] obtain t1 where
    "fst (perform_inference ex_env (Some ex_df) (Some 2) ex_seasonal_service) = Inr (Some t1)"
    by (cases "fst (perform_inference ex_env (Some ex_df) (Some 2) ex_seasonal_service)"
          rule: result_rows.cases) auto
  from prediction_row_count[OF this]
  have seasonal: "given_rows (predict_history
        (snd (perform_inference ex_env (Some ex_df) (Some 2) ex_seasonal_service))) = [2]"
    by (auto simp: ex_seasonal_service_def ex_init_def)
  have "\<exists>x. stats_input_dict ex_env ex_df
            (time_to_feature (time_encoding ex_env)
               (empty_frame (map (\<lambda>k. int k * 60) [0 ..< nat 4]) [''value'']))
            4 (mark_job_started (ex_stats_service ''120ns'')) = Inr \<lparr>si_h = 2, si_X = x\<rparr>"
    by (rule ex_stats_dict_resampled) (simp add: ex_services)
  from ex_stats_run[OF _ this] obtain t2 where
    "fst (perform_inference ex_env (Some ex_df) (Some 4) (ex_stats_service ''120ns''))
       = Inr (Some t2)"
    by (cases "fst (perform_inference ex_env (Some ex_df) (Some 4) (ex_stats_service ''120ns''))"
          rule: result_rows.cases) auto
  from prediction_row_count[OF this]
  obtain inp where
    "predict_history (snd (perform_inference ex_env (Some ex_df) (Some 4)
        (ex_stats_service ''120ns''))) = [PDict inp]"
    and "\<forall>ds fr downsampling frequency.
           params (ex_stats_service ''120ns'') ''downsampling'' = Some ds \<and> ds \<noteq> ''0''
           \<and> params (ex_stats_service ''120ns'') ''frequency'' = Some fr \<and> ds \<noteq> fr
           \<and> parse_timedelta ex_env ds = Inr downsampling
           \<and> parse_timedelta ex_env fr = Inr frequency
           \<longrightarrow> resampled_length 4 frequency downsampling = Inr (si_h inp)"
    by (auto simp: ex_stats_service_def ex_init_def)
  from this(1) this(2)[rule_format, of "''120ns''" "''60ns''" 120 60]
  have stats: "requested_horizons (predict_history
        (snd (perform_inference ex_env (Some ex_df) (Some 4) (ex_stats_service ''120ns'')))) = [2]"
    by (simp add: ex_stats_service_def ex_init_def ex_env_def resampled_length_examples(1))
  from seq seasonal stats show ?thesis by simp
qed

text \<open>
  C3, the failing input. No resampling is configured (\<^verbatim>\<open>params["downsampling"] == "0"\<close>),
  \<^verbatim>\<open>INFERENCE_LENGTH\<close> has its default 1 and the request asks for 5 steps: the predictor
  is called once, with \<^verbatim>\<open>h = 1\<close>, and the table returned for the request has one row.
\<close>

theorem stats_horizon_is_the_module_constant:
  "requested_horizons (predict_history
      (snd (perform_inference ex_env (Some ex_df) (Some 5) (ex_stats_service ''0'')))) = [1]
   \<and> result_rows (fst (perform_inference ex_env (Some ex_df) (Some 5) (ex_stats_service ''0'')))
       = Inr (Some 1)"
proof -
  have "\<exists>x. stats_input_dict ex_env ex_df
            (time_to_feature (time_encoding ex_env)
               (empty_frame (map (\<lambda>k. int k * 60) [0 ..< nat 5]) [''value'']))
            5 (mark_job_started (ex_stats_service ''0'')) = Inr \<lparr>si_h = 1, si_X = x\<rparr>"
    by (rule ex_stats_dict_plain) (simp add: ex_services)
  from ex_stats_run[OF _ this] show ?thesis by simp
qed

text \<open>
  C8, the failing input. With a scaler whose \<^verbatim>\<open>inverse_transform\<close> raises ValueError, a
  request to a seasonal model and a request to a stats model end in that ValueError,
  while the same request to a sequence model returns the raw table.
\<close>

theorem scaler_failure_fails_seasonal_and_stats_requests:
  "fst (perform_inference ex_env (Some ex_df) (Some 2)
          (ex_seasonal_service\<lparr>current_scaler := Some ex_broken_scaler\<rparr>)) = Inl ValueError
   \<and> fst (perform_inference ex_env (Some ex_df) (Some 2)
          ((ex_stats_service ''0'')\<lparr>current_scaler := Some ex_broken_scaler\<rparr>)) = Inl ValueError
   \<and> fst (perform_inference ex_env (Some ex_df) (Some 2)
          (ex_sequence_service\<lparr>current_scaler := Some ex_broken_scaler\<rparr>))
       = Inr (Some \<lparr>f_columns = [''value''], f_rows = [(60, [Some 5]), (120, [Some 5])]\<rparr>)"
proof -
  let ?dfp = "time_to_feature (time_encoding ex_env)
               (empty_frame (map (\<lambda>k. int k * 60) [0 ..< 2]) [''value''])"
  let ?a = "mark_job_started (ex_seasonal_service\<lparr>current_scaler := Some ex_broken_scaler\<rparr>)"
  let ?b = "mark_job_started ((ex_stats_service ''0'')\<lparr>current_scaler := Some ex_broken_scaler\<rparr>)"
  let ?c = "mark_job_started (ex_sequence_service\<lparr>current_scaler := Some ex_broken_scaler\<rparr>)"
  have a: "current_model ?a = Some ex_seasonal_predictor" "input_seq_len ?a = 0"
    "model_class ?a = ''prophet''" "current_scaler ?a = Some ex_broken_scaler"
    by (simp_all add: ex_seasonal_service_def ex_init_def mark_job_started_def)
  have b: "current_model ?b = Some ex_stats_predictor" "input_seq_len ?b = 0"
    "model_class ?b = ''statsforecast''" "current_scaler ?b = Some ex_broken_scaler"
    "params ?b ''downsampling'' = Some ''0''"
    by (simp_all add: ex_stats_service_def ex_init_def mark_job_started_def)
  have bs: "inverse_transform ex_broken_scaler d = Inl ValueError" for d
    by (simp add: ex_broken_scaler_def)
  have ma: "current_model (ex_seasonal_service\<lparr>current_scaler := Some ex_broken_scaler\<rparr>) \<noteq> None"
    and mb: "current_model ((ex_stats_service ''0'')\<lparr>current_scaler := Some ex_broken_scaler\<rparr>) \<noteq> None"
    by (simp_all add: ex_seasonal_service_def ex_stats_service_def)
  have seasonal: "fst (perform_inference ex_env (Some ex_df) (Some 2)
          (ex_seasonal_service\<lparr>current_scaler := Some ex_broken_scaler\<rparr>)) = Inl ValueError"
    by (simp add: perform_inference_loaded[OF ma] ex_body_from_first_row a run_model_branch_def
          perform_prophet_inference_def call_predict_Some[OF a(1)] ex_seasonal_predictor_def
          inverse_scale_unguarded_def bs)
  from ex_stats_dict_plain[OF b(5), of ex_df "time_encoding ex_env"
      "empty_frame (map (\<lambda>k. int k * 60) [0 ..< 2]) [''value'']" 2]
  obtain x where inp: "stats_input_dict ex_env ex_df ?dfp 2 ?b = Inr \<lparr>si_h = 1, si_X = x\<rparr>"
    by blast
  have stats: "fst (perform_inference ex_env (Some ex_df) (Some 2)
          ((ex_stats_service ''0'')\<lparr>current_scaler := Some ex_broken_scaler\<rparr>)) = Inl ValueError"
    by (simp add: perform_inference_loaded[OF mb] ex_body_from_first_row b run_model_branch_def
          perform_statsforecast_inference_def inp call_predict_Some[OF b(1)]
          ex_stats_predictor_def inverse_scale_unguarded_def bs)
  have c: "current_model (ex_sequence_service\<lparr>current_scaler := Some ex_broken_scaler\<rparr>) \<noteq> None"
    "input_seq_len ?c = 1" "output_seq_len ?c = 1" "model_class ?c = ''pytorch''"
    by (simp_all add: ex_sequence_service_def ex_init_def mark_job_started_def)
  have body: "perform_inference_body ex_env ex_df 2 ?c
           = (case run_model_branch ex_env ex_df
                   (time_to_feature (time_encoding ex_env) (empty_frame [60, 120] (f_columns ex_df)))
                   2 ?c of
              (Inl e, s2) \<Rightarrow> (Inl e, s2)
            | (Inr t, s2) \<Rightarrow>
                (Inr (Some t),
                 emit (EvPredictInferenceEnd (n_rows t))
                   (save_and_publish_predictions ex_env t s2)))"
    by (rule perform_inference_body_runs_branch[where delta = 60 and start = 60])
       (simp_all add: ex_df_facts c py_get_def date_range_def upt_conv_Cons)
  obtain r s2 where p: "perform_pytorch_inference ex_env ex_df
     \<lparr>f_columns = ''value'' # TIME_FEATURES,
      f_rows = [(60, [None, Some 0, Some 0, Some 0, Some 0, Some 0, Some 0]),
                (120, [None, Some 0, Some 0, Some 0, Some 0, Some 0, Some 0])]\<rparr>
     2 ?c = (r, s2)" by fastforce
  with ex_sequence_branch_broken_scaler
  have r: "r = Inr \<lparr>f_columns = [''value''], f_rows = [(60, [Some 5]), (120, [Some 5])]\<rparr>"
    by simp
  have sequence: "fst (perform_inference ex_env (Some ex_df) (Some 2)
          (ex_sequence_service\<lparr>current_scaler := Some ex_broken_scaler\<rparr>))
       = Inr (Some \<lparr>f_columns = [''value''], f_rows = [(60, [Some 5]), (120, [Some 5])]\<rparr>)"
    by (simp add: perform_inference_loaded[OF c(1)] body run_model_branch_def c
          ex_df_facts ex_pred_frame p r)
  from seasonal stats sequence show ?thesis by simp
qed

section \<open>The inference log\<close>

subsection \<open>Appending to the inference log\<close>

lemma get_file_post_fails:
  "sk_post_fails (snd (get_file k)) = sk_post_fails k"
  by (simp add: get_file_def split: list.splits)

lemma log_writes_emit:
  "log_writes (emit e s) = log_writes s + (if e = EvInferenceLogWrite then 1 else 0)"
  by (simp add: log_writes_def emit_def)

lemma log_writes_log_sink:
  "log_writes (s\<lparr>log_sink := k\<rparr>) = log_writes s"
  "log_writes (s\<lparr>emitted_prediction_keys := ks\<rparr>) = log_writes s"
  "log_writes (s\<lparr>last_prediction_response := r\<rparr>) = log_writes s"
  by (simp_all add: log_writes_def)

lemma append_with_retries_writes:
  "log_writes (append_with_retries as line s)
     = log_writes s + (if accepts_within (sk_post_fails (log_sink s)) (length as) then 1 else 0)"
proof (induction as arbitrary: s)
  case Nil
  show ?case by simp
next
  case (Cons attempt rest)
  show ?case
  proof (cases "sk_post_fails (log_sink s)")
    case Nil
    then show ?thesis
      by (simp add: Let_def post_file_def get_file_post_fails log_writes_emit log_writes_log_sink)
  next
    case (Cons f fs)
    then show ?thesis
      by (simp add: Let_def post_file_def get_file_post_fails log_writes_emit log_writes_log_sink
            Cons.IH emit_fields)
  qed
qed

lemma save_and_publish_fields:
  "current_run_id (save_and_publish_predictions ev d s) = current_run_id s"
  by (simp add: save_and_publish_predictions_def Let_def emit_fields append_with_retries_fields)

lemma save_and_publish_records_key:
  assumes "\<not> disable_log_upload ev" and "current_run_id s \<noteq> []" and "prediction_hash ev d \<noteq> []"
  shows "(current_run_id s, prediction_hash ev d)
           \<in> emitted_prediction_keys (save_and_publish_predictions ev d s)"
  using assms
  by (simp add: save_and_publish_predictions_def Let_def emit_fields append_with_retries_fields)

lemma append_three_attempts_writes:
  "log_writes (append_with_retries [a, b, c] line s)
     = log_writes s + (if accepts_within (sk_post_fails (log_sink s)) 3 then 1 else 0)"
  using append_with_retries_writes[of "[a, b, c]" line s]
  by (simp add: numeral_3_eq_3 del: append_with_retries.simps)

lemma save_and_publish_writes:
  "log_writes (save_and_publish_predictions ev d s)
     = log_writes s
       + (if \<not> disable_log_upload ev
             \<and> (current_run_id s = [] \<or> prediction_hash ev d = []
                 \<or> (current_run_id s, prediction_hash ev d) \<notin> emitted_prediction_keys s)
             \<and> accepts_within (sk_post_fails (log_sink s)) 3
          then 1 else 0)"
proof (cases "disable_log_upload ev")
  case True
  then show ?thesis by (simp add: save_and_publish_predictions_def)
next
  case False
  show ?thesis
  proof (cases "current_run_id s \<noteq> [] \<and> prediction_hash ev d \<noteq> []")
    case keyed: True
    show ?thesis
    proof (cases "(current_run_id s, prediction_hash ev d) \<in> emitted_prediction_keys s")
      case True
      with False keyed show ?thesis
        by (simp add: save_and_publish_predictions_def Let_def log_writes_emit)
    next
      case notin: False
      have "log_writes (save_and_publish_predictions ev d s)
              = log_writes (append_with_retries [1, 2, 3]
                  \<lparr>lr_run_id = current_run_id s, lr_prediction_hash = prediction_hash ev d,
                     lr_rows_predicted = n_rows d\<rparr>
                  (s\<lparr>emitted_prediction_keys :=
                       insert (current_run_id s, prediction_hash ev d) (emitted_prediction_keys s)\<rparr>))"
        using False keyed notin
        by (simp add: save_and_publish_predictions_def Let_def log_writes_log_sink
              del: append_with_retries.simps)
      with False keyed notin show ?thesis
        by (simp add: append_three_attempts_writes log_writes_log_sink
              del: append_with_retries.simps)
    qed
  next
    case unkeyed: False
    have "log_writes (save_and_publish_predictions ev d s)
            = log_writes (append_with_retries [1, 2, 3]
                \<lparr>lr_run_id = current_run_id s, lr_prediction_hash = prediction_hash ev d,
                   lr_rows_predicted = n_rows d\<rparr> s)"
      using False unkeyed
      by (auto simp: save_and_publish_predictions_def Let_def log_writes_log_sink
            simp del: append_with_retries.simps)
    with False unkeyed show ?thesis
      by (auto simp: append_three_attempts_writes simp del: append_with_retries.simps)
  qed
qed

lemma save_and_publish_duplicate:
  assumes "\<not> disable_log_upload ev" and "current_run_id s \<noteq> []" and "prediction_hash ev d \<noteq> []"
    and "(current_run_id s, prediction_hash ev d) \<in> emitted_prediction_keys s"
  shows "save_and_publish_predictions ev d s
           = emit (EvDuplicatePredictionSkip (current_run_id s) (prediction_hash ev d)) s"
  using assms by (simp add: save_and_publish_predictions_def Let_def)


text \<open>
  C9 as amended. For two consecutive calls of \<^verbatim>\<open>_save_and_publish_predictions\<close> with the same
  table under the same non-empty run id, the hash of the table being non-empty: the second
  call appends nothing and leaves the log object as it is, and when log upload is enabled
  all it does is print \<^verbatim>\<open>duplicate_prediction_skip\<close>; the pair performs one append when log
  upload is enabled, the key had not been emitted before and the sink accepts one of the
  three upload attempts of the first call, and none otherwise.
\<close>

theorem repeated_save_appends_at_most_once:
  fixes ev :: env and d :: frame and s :: inferencer
  defines "s1 \<equiv> save_and_publish_predictions ev d s"
  assumes run: "current_run_id s \<noteq> []" and hash: "prediction_hash ev d \<noteq> []"
  shows "log_writes (save_twice ev d s) = log_writes s1
       \<and> log_sink (save_twice ev d s) = log_sink s1
       \<and> save_twice ev d s
           = (if disable_log_upload ev then s
              else emit (EvDuplicatePredictionSkip (current_run_id s) (prediction_hash ev d)) s1)
       \<and> log_writes (save_twice ev d s)
           = log_writes s
             + (if disable_log_upload ev then 0
                else if (current_run_id s, prediction_hash ev d) \<in> emitted_prediction_keys s then 0
                else if accepts_within (sk_post_fails (log_sink s)) 3 then 1 else 0)"
proof (cases "disable_log_upload ev")
  case True
  then have "save_and_publish_predictions ev d s' = s'" for s'
    by (simp add: save_and_publish_predictions_def)
  with True show ?thesis by (simp add: save_twice_def s1_def)
next
  case False
  have run1: "current_run_id s1 = current_run_id s"
    by (simp add: s1_def save_and_publish_fields)
  from False run hash
  have "(current_run_id s, prediction_hash ev d) \<in> emitted_prediction_keys s1"
    unfolding s1_def by (rule save_and_publish_records_key)
  with False run hash run1
  have second: "save_twice ev d s
      = emit (EvDuplicatePredictionSkip (current_run_id s) (prediction_hash ev d)) s1"
    using save_and_publish_duplicate[of ev s1 d] by (simp add: save_twice_def s1_def)
  have first: "log_writes s1
      = log_writes s
        + (if (current_run_id s, prediction_hash ev d) \<in> emitted_prediction_keys s then 0
           else if accepts_within (sk_post_fails (log_sink s)) 3 then 1 else 0)"
    using False run hash by (simp add: s1_def save_and_publish_writes)
  from False second first show ?thesis
    by (simp add: log_writes_emit emit_fields)
qed

text \<open>
  C9, the claim as it stands fails. A third identical call: the pair made of the second
  and the third call appends nothing (the log has the one line of the first call). And
  a sink that rejects three uploads: the first call of the pair records the key, fails
  its three attempts, and the second is skipped as a duplicate, so the pair appends
  nothing.
\<close>

theorem repeated_save_without_append:
  "log_writes (save_and_publish_predictions ex_env ex_df ex_run_service) = 1
   \<and> log_writes (save_twice ex_env ex_df
        (save_and_publish_predictions ex_env ex_df ex_run_service)) = 1
   \<and> log_writes (save_twice ex_env ex_df (ex_run_service\<lparr>log_sink := ex_rejecting_sink\<rparr>)) = 0"
proof -
  have e: "disable_log_upload ex_env = False" "prediction_hash ex_env ex_df = ''0123456789abcdef''"
    by (simp_all add: ex_env_def prediction_hash_def)
  have s: "current_run_id ex_run_service = ''run-1''" "emitted_prediction_keys ex_run_service = {}"
    "sk_post_fails (log_sink ex_run_service) = []" "log_writes ex_run_service = 0"
    by (simp_all add: ex_run_service_def ex_init_def ex_sink_def log_writes_def)
  have one: "log_writes (save_and_publish_predictions ex_env ex_df ex_run_service) = 1"
    by (simp add: save_and_publish_writes e s numeral_3_eq_3)
  have key: "(''run-1'', ''0123456789abcdef'')
      \<in> emitted_prediction_keys (save_and_publish_predictions ex_env ex_df ex_run_service)"
    using save_and_publish_records_key[of ex_env ex_run_service ex_df] by (simp add: e s)
  have dup: "save_and_publish_predictions ex_env ex_df t
               = emit (EvDuplicatePredictionSkip ''run-1'' ''0123456789abcdef'') t"
    if "current_run_id t = ''run-1''"
      and "(''run-1'', ''0123456789abcdef'') \<in> emitted_prediction_keys t" for t
    using that save_and_publish_duplicate[of ex_env t ex_df] by (simp add: e)
  have two: "log_writes (save_twice ex_env ex_df
        (save_and_publish_predictions ex_env ex_df ex_run_service)) = 1"
    by (simp add: save_twice_def dup save_and_publish_fields emit_fields log_writes_emit s key one)
  have r: "current_run_id (ex_run_service\<lparr>log_sink := ex_rejecting_sink\<rparr>) = ''run-1''"
    "sk_post_fails (log_sink (ex_run_service\<lparr>log_sink := ex_rejecting_sink\<rparr>)) = [True, True, True]"
    "log_writes (ex_run_service\<lparr>log_sink := ex_rejecting_sink\<rparr>) = 0"
    by (simp_all add: ex_run_service_def ex_init_def ex_rejecting_sink_def log_writes_def)
  have rs: "sk_post_fails ex_rejecting_sink = [True, True, True]"
    by (simp add: ex_rejecting_sink_def)
  have first: "log_writes (save_and_publish_predictions ex_env ex_df
        (ex_run_service\<lparr>log_sink := ex_rejecting_sink\<rparr>)) = 0"
    by (simp add: save_and_publish_writes e r s rs numeral_3_eq_3)
  have key': "(''run-1'', ''0123456789abcdef'')
      \<in> emitted_prediction_keys (save_and_publish_predictions ex_env ex_df
            (ex_run_service\<lparr>log_sink := ex_rejecting_sink\<rparr>))"
    using save_and_publish_records_key[of ex_env
        "ex_run_service\<lparr>log_sink := ex_rejecting_sink\<rparr>" ex_df]
    by (simp add: e r)
  have three: "log_writes (save_twice ex_env ex_df
        (ex_run_service\<lparr>log_sink := ex_rejecting_sink\<rparr>)) = 0"
    by (simp add: save_twice_def dup save_and_publish_fields log_writes_emit r key' first)
  from one two three show ?thesis by simp
qed

theorem repeated_save_appends_at_most_once_witness:
  "current_run_id ex_run_service \<noteq> [] \<and> prediction_hash ex_env ex_df \<noteq> []
   \<and> log_writes (save_twice ex_env ex_df ex_run_service) = 1
   \<and> log_writes (save_twice ex_env ex_df ex_run_service)
       = log_writes (save_and_publish_predictions ex_env ex_df ex_run_service)
   \<and> log_sink (save_twice ex_env ex_df ex_run_service)
       = log_sink (save_and_publish_predictions ex_env ex_df ex_run_service)"
proof -
  have e: "disable_log_upload ex_env = False" "prediction_hash ex_env ex_df = ''0123456789abcdef''"
    by (simp_all add: ex_env_def prediction_hash_def)
  have s: "current_run_id ex_run_service = ''run-1''" "emitted_prediction_keys ex_run_service = {}"
    "sk_post_fails (log_sink ex_run_service) = []" "log_writes ex_run_service = 0"
    by (simp_all add: ex_run_service_def ex_init_def ex_sink_def log_writes_def)
  have h: "current_run_id ex_run_service \<noteq> []" "prediction_hash ex_env ex_df \<noteq> []"
    by (simp_all add: e s)
  note t = repeated_save_appends_at_most_once[OF h]
  from t[THEN conjunct1] t[THEN conjunct2, THEN conjunct1]
    t[THEN conjunct2, THEN conjunct2, THEN conjunct2] h
  show ?thesis
    by (simp add: e s numeral_3_eq_3)
qed

end
